theory Spec2Isabelle
  imports
    Complex_Main
    "HOL-Library.AList"
    "HOL-Library.Sublist"
    "HOL-Library.Char_ord"
    "HOL-Library.List_Lexorder"
    "HOL-Library.Product_Lexorder"
    "HOL-Library.Multiset"
begin

section \<open>The file system the pipeline works on\<close>

text \<open>
  \<^verbatim>\<open>sp_lightglue_sfm.py\<close> talks to the outside only through \<^verbatim>\<open>pathlib\<close>,
  \<^verbatim>\<open>shutil\<close> and the four HLOC stage functions. A path is the list of its components
  below the root (every \<^verbatim>\<open>Path\<close> of the program is absolute after \<^verbatim>\<open>resolve()\<close>; there
  are no symbolic links, so \<^verbatim>\<open>resolve()\<close> is the identity). A node is a regular file, with
  its bytes and its modification time, or a directory, with the size and the modification
  time that \<^verbatim>\<open>stat()\<close> reports for it. The directory listing is an association list: its
  order is the order in which \<^verbatim>\<open>glob\<close> and \<^verbatim>\<open>rglob\<close> yield the entries, which Python
  leaves unspecified. Time stamps are reals (the seconds of \<^verbatim>\<open>time.time()\<close> and
  \<^verbatim>\<open>st_mtime\<close>).

  The state also keeps a trace: every call that changes the file system and every call of a
  stage function is recorded, whether it succeeds or raises.
\<close>

type_synonym path = "string list"

datatype node =
    File (content: string) (mtime: real)
  | Dir (dsize: nat) (mtime: real)

datatype error =
    TypeError
  | FileNotFoundError
  | FileExistsError
  | NotADirectoryError
  | IsADirectoryError
  | ShutilError
  | StageError string

datatype jval = JStr string | JInt int | JBool bool | JDict "(string \<times> jval) list"

type_synonym conf = "(string \<times> jval) list"

datatype val = VNone | VPath path | VStr string | VConf conf

record call =
  pos :: "val list"
  kws :: "(string \<times> val) list"

datatype event =
    Mkdir path
  | WriteText path
  | Rmtree path
  | Unlink path
  | Move path path
  | Invoke string call

record state =
  nodes :: "(path \<times> node) list"
  clock :: real
  trace :: "event list"

type_synonym 'a result = "(error + 'a) \<times> state"

text \<open>
  The HLOC modules are not part of the program. A stage function is given by the parameter
  names that \<^verbatim>\<open>inspect.signature\<close> reports and by what a call does: from the arguments,
  the file system and the clock it returns a value or raises, and leaves a new file system
  and clock. The environment holds the four stage functions, the two \<^verbatim>\<open>confs\<close>
  dictionaries and \<^verbatim>\<open>json.dumps\<close>.
\<close>

type_synonym world = "(path \<times> node) list \<times> real"

record stage =
  params :: "string list"
  impl :: "call \<Rightarrow> world \<Rightarrow> (error + val) \<times> world"

record env =
  pairs_from_exhaustive :: stage
  extract_features :: stage
  match_features :: stage
  reconstruction :: stage
  extract_confs :: "(string \<times> conf) list"
  match_confs :: "(string \<times> conf) list"
  json_dumps :: "jval \<Rightarrow> string"

definition lookup :: "state \<Rightarrow> path \<Rightarrow> node option" where
  "lookup st p = map_of (nodes st) p"

definition exists :: "state \<Rightarrow> path \<Rightarrow> bool" where
  "exists st p = (lookup st p \<noteq> None)"

definition is_dir :: "state \<Rightarrow> path \<Rightarrow> bool" where
  "is_dir st p = (case lookup st p of Some (Dir _ _) \<Rightarrow> True | _ \<Rightarrow> False)"

definition is_file :: "state \<Rightarrow> path \<Rightarrow> bool" where
  "is_file st p = (case lookup st p of Some (File _ _) \<Rightarrow> True | _ \<Rightarrow> False)"

fun st_size :: "node \<Rightarrow> nat" where
  "st_size (File c _) = length c"
| "st_size (Dir n _) = n"

definition parent :: "path \<Rightarrow> path" where
  "parent p = butlast p"

definition name :: "path \<Rightarrow> string" where
  "name p = (if p = [] then [] else last p)"

text \<open>\<^verbatim>\<open>Path.parts\<close> of an absolute path starts with the root.\<close>

definition parts :: "path \<Rightarrow> string list" where
  "parts p = ''/'' # p"

text \<open>
  \<^verbatim>\<open>Path.suffix\<close> and \<^verbatim>\<open>Path.stem\<close>: the name is cut at its last dot, unless that dot is
  the first or the last character of the name.
\<close>

fun rfind_dot :: "string \<Rightarrow> nat option" where
  "rfind_dot [] = None"
| "rfind_dot (c # cs) =
     (case rfind_dot cs of
        Some i \<Rightarrow> Some (Suc i)
      | None \<Rightarrow> if c = CHR ''.'' then Some 0 else None)"

definition suffix_of :: "string \<Rightarrow> string" where
  "suffix_of n =
     (case rfind_dot n of
        Some i \<Rightarrow> if 0 < i \<and> i < length n - 1 then drop i n else []
      | None \<Rightarrow> [])"

definition stem_of :: "string \<Rightarrow> string" where
  "stem_of n =
     (case rfind_dot n of
        Some i \<Rightarrow> if 0 < i \<and> i < length n - 1 then take i n else n
      | None \<Rightarrow> n)"

text \<open>\<^verbatim>\<open>str.lower()\<close> on the ASCII letters.\<close>

definition lower_char :: "char \<Rightarrow> char" where
  "lower_char c =
     (if CHR ''A'' \<le> c \<and> c \<le> CHR ''Z'' then char_of (of_char c + (32::nat)) else c)"

definition lower :: "string \<Rightarrow> string" where
  "lower s = map lower_char s"

text \<open>
  The glob patterns of the program: \<^verbatim>\<open>*\<close>, \<^verbatim>\<open>*.ext\<close>, \<^verbatim>\<open>prefix*.ext\<close> and a literal
  name. \<^verbatim>\<open>pathlib\<close> matches case-sensitively on POSIX and does not hide dot files.
\<close>

datatype pattern = Star | StarExt string | PreStarExt string string | Literal string

fun matches :: "pattern \<Rightarrow> string \<Rightarrow> bool" where
  "matches Star n = True"
| "matches (StarExt e) n = suffix e n"
| "matches (PreStarExt b e) n =
     (prefix b n \<and> suffix e n \<and> length b + length e \<le> length n)"
| "matches (Literal l) n = (n = l)"

text \<open>
  \<^verbatim>\<open>d.glob(pat)\<close> yields the entries directly in \<^verbatim>\<open>d\<close>, \<^verbatim>\<open>d.rglob(pat)\<close> the entries
  anywhere below \<^verbatim>\<open>d\<close>, directories included; both yield nothing when \<^verbatim>\<open>d\<close> is not a
  directory.
\<close>

definition glob :: "state \<Rightarrow> path \<Rightarrow> pattern \<Rightarrow> path list" where
  "glob st d pat =
     (if is_dir st d
      then filter (\<lambda>p. p \<noteq> [] \<and> parent p = d \<and> matches pat (name p)) (map fst (nodes st))
      else [])"

definition rglob :: "state \<Rightarrow> path \<Rightarrow> pattern \<Rightarrow> path list" where
  "rglob st d pat =
     (if is_dir st d
      then filter (\<lambda>p. strict_prefix d p \<and> matches pat (name p)) (map fst (nodes st))
      else [])"

text \<open>
  A state is well formed when no path is listed twice, the root is a directory and every
  other entry lies in a directory.
\<close>

definition wf_state :: "state \<Rightarrow> bool" where
  "wf_state st =
     (distinct (map fst (nodes st)) \<and> is_dir st [] \<and>
      list_all (\<lambda>p. p = [] \<or> is_dir st (parent p)) (map fst (nodes st)))"

text \<open>The last condition, on the association list alone.\<close>

definition wf_nodes :: "(path \<times> node) list \<Rightarrow> bool" where
  "wf_nodes fs =
     (\<forall>q n. map_of fs q = Some n \<longrightarrow> q \<noteq> [] \<longrightarrow>
        (\<exists>s t. map_of fs (butlast q) = Some (Dir s t)))"

subsection \<open>Sequencing\<close>

definition bind :: "(state \<Rightarrow> 'a result) \<Rightarrow> ('a \<Rightarrow> state \<Rightarrow> 'b result) \<Rightarrow> state \<Rightarrow> 'b result" where
  "bind m f st = (case m st of (Inl e, st') \<Rightarrow> (Inl e, st') | (Inr a, st') \<Rightarrow> f a st')"

definition return :: "'a \<Rightarrow> state \<Rightarrow> 'a result" where
  "return a st = (Inr a, st)"

definition raise :: "error \<Rightarrow> state \<Rightarrow> 'a result" where
  "raise e st = (Inl e, st)"

text \<open>\<^verbatim>\<open>try: m except TypeError: h\<close>\<close>

definition except_TypeError :: "(state \<Rightarrow> 'a result) \<Rightarrow> (state \<Rightarrow> 'a result) \<Rightarrow> state \<Rightarrow> 'a result" where
  "except_TypeError m h st =
     (case m st of (Inl TypeError, st') \<Rightarrow> h st' | r \<Rightarrow> r)"

text \<open>\<^verbatim>\<open>try: m except Exception: h\<close>\<close>

definition except_Exception :: "(state \<Rightarrow> 'a result) \<Rightarrow> (state \<Rightarrow> 'a result) \<Rightarrow> state \<Rightarrow> 'a result" where
  "except_Exception m h st =
     (case m st of (Inl e, st') \<Rightarrow> h st' | r \<Rightarrow> r)"

definition log :: "event \<Rightarrow> state \<Rightarrow> state" where
  "log e st = st\<lparr>trace := trace st @ [e]\<rparr>"

subsection \<open>The primitives of \<^verbatim>\<open>pathlib\<close> and \<^verbatim>\<open>shutil\<close>\<close>

text \<open>The size a fresh directory reports; nothing below depends on its value.\<close>

definition fresh_dir_size :: nat where
  "fresh_dir_size = 4096"

text \<open>
  \<^verbatim>\<open>p.mkdir(parents=True, exist_ok=True)\<close>: an existing directory is accepted, an existing
  file raises \<^verbatim>\<open>FileExistsError\<close>, a file in the place of an ancestor raises
  \<^verbatim>\<open>NotADirectoryError\<close>, and the missing ancestors are created first.
\<close>

function mkdirs :: "real \<Rightarrow> path \<Rightarrow> (path \<times> node) list \<Rightarrow> error + (path \<times> node) list" where
  "mkdirs now p fs =
     (case map_of fs p of
        Some (Dir _ _) \<Rightarrow> Inr fs
      | Some (File _ _) \<Rightarrow> Inl FileExistsError
      | None \<Rightarrow>
          (case (if p = [] then Inr fs else mkdirs now (butlast p) fs) of
             Inl e \<Rightarrow> Inl (if e = FileExistsError then NotADirectoryError else e)
           | Inr fs' \<Rightarrow> Inr (fs' @ [(p, Dir fresh_dir_size now)])))"
  by pat_completeness auto
termination
  by (relation "measure (\<lambda>(now, p, fs). length p)") auto

declare mkdirs.simps [simp del]

definition mkdir_parents :: "path \<Rightarrow> state \<Rightarrow> unit result" where
  "mkdir_parents p st =
     (let st' = log (Mkdir p) st in
      case mkdirs (clock st') p (nodes st') of
        Inl e \<Rightarrow> (Inl e, st')
      | Inr fs \<Rightarrow> (Inr (), st'\<lparr>nodes := fs\<rparr>))"

text \<open>\<^verbatim>\<open>p.unlink()\<close> removes a regular file and raises on a directory or a missing path.\<close>

definition unlink :: "path \<Rightarrow> state \<Rightarrow> unit result" where
  "unlink p st =
     (let st' = log (Unlink p) st in
      case lookup st' p of
        None \<Rightarrow> (Inl FileNotFoundError, st')
      | Some (Dir _ _) \<Rightarrow> (Inl IsADirectoryError, st')
      | Some (File _ _) \<Rightarrow> (Inr (), st'\<lparr>nodes := AList.delete p (nodes st')\<rparr>))"

text \<open>
  \<^verbatim>\<open>p.write_text(s)\<close> creates or overwrites the regular file \<^verbatim>\<open>p\<close>; its modification
  time becomes the current time.
\<close>

definition write_text :: "path \<Rightarrow> string \<Rightarrow> state \<Rightarrow> unit result" where
  "write_text p s st =
     (let st' = log (WriteText p) st in
      case lookup st' p of
        Some (Dir _ _) \<Rightarrow> (Inl IsADirectoryError, st')
      | _ \<Rightarrow>
        (case lookup st' (parent p) of
           None \<Rightarrow> (Inl FileNotFoundError, st')
         | Some (File _ _) \<Rightarrow> (Inl NotADirectoryError, st')
         | Some (Dir _ _) \<Rightarrow>
             (Inr (), st'\<lparr>nodes := AList.update p (File s (clock st')) (nodes st')\<rparr>)))"

text \<open>\<^verbatim>\<open>shutil.rmtree(p)\<close> removes a directory with everything below it.\<close>

definition rmtree :: "path \<Rightarrow> state \<Rightarrow> unit result" where
  "rmtree p st =
     (let st' = log (Rmtree p) st in
      case lookup st' p of
        None \<Rightarrow> (Inl FileNotFoundError, st')
      | Some (File _ _) \<Rightarrow> (Inl NotADirectoryError, st')
      | Some (Dir _ _) \<Rightarrow>
          (Inr (), st'\<lparr>nodes := filter (\<lambda>(q, n). \<not> prefix p q) (nodes st')\<rparr>))"

text \<open>
  \<^verbatim>\<open>shutil.move(src, dst)\<close> where \<^verbatim>\<open>dst\<close> does not exist and its parent is a directory,
  which is how \<^verbatim>\<open>move_file\<close> calls it: a regular file is renamed and keeps its
  modification time, a directory is renamed with everything below it, unless \<^verbatim>\<open>dst\<close>
  lies inside it, and a missing source raises.
\<close>

definition rename_below :: "path \<Rightarrow> path \<Rightarrow> path \<times> node \<Rightarrow> path \<times> node" where
  "rename_below src dst e =
     (if prefix src (fst e) then (dst @ drop (length src) (fst e), snd e) else e)"

definition shutil_move :: "path \<Rightarrow> path \<Rightarrow> state \<Rightarrow> unit result" where
  "shutil_move src dst st =
     (let st' = log (Move src dst) st in
      case lookup st' src of
        None \<Rightarrow> (Inl FileNotFoundError, st')
      | Some (File c t) \<Rightarrow>
          (Inr (), st'\<lparr>nodes := AList.update dst (File c t) (AList.delete src (nodes st'))\<rparr>)
      | Some (Dir s t) \<Rightarrow>
          if prefix src dst then (Inl ShutilError, st')
          else (Inr (), st'\<lparr>nodes := map (rename_below src dst) (nodes st')\<rparr>))"

section \<open>Input validation and the image list\<close>

definition IMG_EXTS :: "string list" where
  "IMG_EXTS = [''.jpg'', ''.jpeg'', ''.png'', ''.tif'', ''.tiff'', ''.bmp'']"

text \<open>The test \<^verbatim>\<open>p.suffix.lower() in IMG_EXTS\<close>.\<close>

definition is_image :: "path \<Rightarrow> bool" where
  "is_image p = (lower (suffix_of (name p)) \<in> set IMG_EXTS)"

definition ensure_images_dir :: "path \<Rightarrow> state \<Rightarrow> path result" where
  "ensure_images_dir project_dir st =
     (let images = project_dir @ [''images''] in
      if \<not> exists st images \<or> \<not> is_dir st images then raise FileNotFoundError st
      else
        let imgs = filter is_image (rglob st images Star) in
        if imgs = [] then raise FileNotFoundError st
        else return images st)"

text \<open>\<^verbatim>\<open>p.relative_to(d)\<close> for a path below \<^verbatim>\<open>d\<close>, \<^verbatim>\<open>str\<close> of a path and \<^verbatim>\<open>sep.join\<close>.\<close>

definition relative_to :: "path \<Rightarrow> path \<Rightarrow> path" where
  "relative_to p d = drop (length d) p"

fun join :: "string \<Rightarrow> string list \<Rightarrow> string" where
  "join sep [] = []"
| "join sep [x] = x"
| "join sep (x # y # ys) = x @ sep @ join sep (y # ys)"

definition str_rel :: "path \<Rightarrow> string" where
  "str_rel p = (if p = [] then ''.'' else join ''/'' p)"

definition str_path :: "path \<Rightarrow> string" where
  "str_path p = ''/'' @ join ''/'' p"

definition newline :: string where
  "newline = [CHR 0x0A]"

text \<open>
  \<^verbatim>\<open>make_image_list_file\<close>: the sorted list \<^verbatim>\<open>rels\<close> first, then the file written from
  it.
\<close>

definition image_rels :: "state \<Rightarrow> path \<Rightarrow> string list" where
  "image_rels st images_dir =
     sort (map (\<lambda>p. str_rel (relative_to p images_dir))
             (filter is_image (rglob st images_dir Star)))"

definition make_image_list_file :: "path \<Rightarrow> path \<Rightarrow> state \<Rightarrow> path result" where
  "make_image_list_file images_dir out_dir st =
     (let rels = image_rels st images_dir;
          list_path = out_dir @ [''images.txt'']
      in bind (write_text list_path (join newline rels)) (\<lambda>_. return list_path) st)"

section \<open>The adaptive stage invoker\<close>

text \<open>
  One call of a stage function. The call is recorded in the trace; the stage works on the
  file system and the clock only.
\<close>

definition invoke :: "string \<Rightarrow> stage \<Rightarrow> call \<Rightarrow> state \<Rightarrow> val result" where
  "invoke nm f c st =
     (case impl f c (nodes st, clock st) of
        (r, (fs, t)) \<Rightarrow> (r, \<lparr>nodes = fs, clock = t, trace = trace st @ [Invoke nm c]\<rparr>))"

definition args :: "val list \<Rightarrow> call" where
  "args vs = \<lparr>pos = vs, kws = []\<rparr>"

definition kwargs :: "(string \<times> val) list \<Rightarrow> call" where
  "kwargs ks = \<lparr>pos = [], kws = ks\<rparr>"

definition call_pairs_exhaustive :: "env \<Rightarrow> path \<Rightarrow> path \<Rightarrow> path \<Rightarrow> state \<Rightarrow> val result" where
  "call_pairs_exhaustive h images_dir output_pairs image_list_path =
     (let main = pairs_from_exhaustive h;
          ps = params main;
          run = invoke ''pairs_from_exhaustive'' main
      in except_TypeError
           (if ''image_dir'' \<in> set ps
            then run (kwargs [(''image_dir'', VPath images_dir), (''output'', VPath output_pairs)])
            else if ''image_list'' \<in> set ps
            then run (kwargs [(''image_list'', VPath image_list_path), (''output'', VPath output_pairs)])
            else
              let first = (if ps \<noteq> [] then hd ps else ''image_dir'') in
              if sublist ''list'' first
              then run (args [VPath image_list_path, VPath output_pairs])
              else run (args [VPath images_dir, VPath output_pairs]))
           (except_TypeError
              (run (kwargs [(''image_list'', VPath image_list_path), (''output'', VPath output_pairs)]))
              (run (args [VPath images_dir, VPath output_pairs]))))"

text \<open>\<^verbatim>\<open>d.get(k, default)\<close> of a dictionary.\<close>

definition dict_get :: "(string \<times> 'a) list \<Rightarrow> string \<Rightarrow> 'a \<Rightarrow> 'a" where
  "dict_get d k dflt = (case map_of d k of Some v \<Rightarrow> v | None \<Rightarrow> dflt)"

definition default_feats_conf :: "int \<Rightarrow> conf" where
  "default_feats_conf max_keypoints =
     [(''output'', JStr ''feats-superpoint''),
      (''model'', JDict [(''name'', JStr ''superpoint''), (''nms_radius'', JInt 3),
                         (''max_keypoints'', JInt max_keypoints)]),
      (''preprocessing'', JDict [(''grayscale'', JBool True), (''resize_max'', JInt 1024)])]"

text \<open>
  The update of \<^verbatim>\<open>feats_conf["model"]["max_keypoints"]\<close>; when the model entry is missing
  or is not a dictionary the configuration stays as it is (the exception is swallowed).
\<close>

definition with_max_keypoints :: "conf \<Rightarrow> int \<Rightarrow> conf" where
  "with_max_keypoints c max_keypoints =
     (case map_of c ''model'' of
        Some (JDict m) \<Rightarrow>
          AList.update ''model'' (JDict (AList.update ''max_keypoints'' (JInt max_keypoints) m)) c
      | _ \<Rightarrow> c)"

text \<open>
  \<^verbatim>\<open>p.stat().st_mtime if p.exists() else 0\<close>; on a path that a glob has just listed it is
  \<^verbatim>\<open>p.stat().st_mtime\<close>.
\<close>

definition mtime_of :: "state \<Rightarrow> path \<Rightarrow> real" where
  "mtime_of st p = (case lookup st p of Some n \<Rightarrow> mtime n | None \<Rightarrow> 0)"

definition call_extract_features ::
    "env \<Rightarrow> path \<Rightarrow> path \<Rightarrow> int \<Rightarrow> state \<Rightarrow> (path \<times> string \<times> conf) result" where
  "call_extract_features h images_dir export_dir max_keypoints =
     (let feats_conf = with_max_keypoints
            (dict_get (extract_confs h) ''superpoint_aachen'' (default_feats_conf max_keypoints))
            max_keypoints;
          run = invoke ''extract_features'' (extract_features h)
      in bind
           (except_TypeError
              (run (args [VConf feats_conf, VPath images_dir, VPath export_dir]))
              (except_TypeError
                 (run (kwargs [(''conf'', VConf feats_conf), (''image_dir'', VPath images_dir),
                               (''export_dir'', VPath export_dir)]))
                 (let image_list = export_dir @ [''images.txt''] in
                  bind (\<lambda>st. if \<not> exists st image_list then write_text image_list [] st
                             else return () st)
                    (\<lambda>_. run (args [VConf feats_conf, VPath image_list, VPath export_dir])))))
           (\<lambda>_ st.
              let candidates = sort_key (mtime_of st) (glob st export_dir (PreStarExt ''feats-'' ''.h5''))
              in if candidates \<noteq> []
                 then return (last candidates, stem_of (name (last candidates)), feats_conf) st
                 else
                   (case dict_get feats_conf ''output'' (JStr ''feats-superpoint'') of
                      JStr s \<Rightarrow>
                        return (export_dir @ [s @ ''.h5''], stem_of (s @ ''.h5''), feats_conf) st
                    | _ \<Rightarrow> raise TypeError st)))"

section \<open>The artifact locator\<close>

text \<open>
  \<^verbatim>\<open>find_matches_file\<close>: the exact name first; then the newest \<^verbatim>\<open>*.h5\<close> entry below the
  export directory whose lower-cased name contains \<^verbatim>\<open>match\<close> and that is not older than
  \<^verbatim>\<open>t0 - 1.0\<close> (the list of pairs \<^verbatim>\<open>(mtime, path)\<close> is sorted and its last element
  taken); then the newest \<^verbatim>\<open>matches*.h5\<close> below the export directory; then below its
  parent; then \<^verbatim>\<open>FileNotFoundError\<close>.
\<close>

definition recent_matches :: "state \<Rightarrow> path \<Rightarrow> real \<Rightarrow> (real \<times> path) list" where
  "recent_matches st export_dir t0 =
     List.map_filter
       (\<lambda>p. case lookup st p of
               None \<Rightarrow> None
             | Some n \<Rightarrow>
                 if sublist ''match'' (lower (name p)) \<and> mtime n \<ge> t0 - 1
                 then Some (mtime n, p) else None)
       (rglob st export_dir (StarExt ''.h5''))"

definition find_matches_file :: "path \<Rightarrow> string \<Rightarrow> real \<Rightarrow> state \<Rightarrow> path result" where
  "find_matches_file export_dir preferred_basename t0 st =
     (let preferred = export_dir @ [preferred_basename @ ''.h5''] in
      if exists st preferred then return preferred st
      else
        let recents = recent_matches st export_dir t0 in
        if recents \<noteq> [] then return (snd (last (sort recents))) st
        else
          let any_matches =
                sort_key (mtime_of st) (rglob st export_dir (PreStarExt ''matches'' ''.h5'')) in
          if any_matches \<noteq> [] then return (last any_matches) st
          else
            let fallback =
                  sort_key (mtime_of st)
                    (rglob st (parent export_dir) (PreStarExt ''matches'' ''.h5'')) in
            if fallback \<noteq> [] then return (last fallback) st
            else raise FileNotFoundError st)"

definition default_matches_conf :: conf where
  "default_matches_conf =
     [(''output'', JStr ''matches-superpoint-lightglue''),
      (''model'', JDict [(''name'', JStr ''lightglue''), (''features'', JStr ''superpoint'')])]"

text \<open>
  \<^verbatim>\<open>call_match_features\<close>: the three bindings of \<^verbatim>\<open>match_features.main\<close>, tried in
  order (given first, on its own), and then the search for the file that the stage wrote.
\<close>

definition try_match_features :: "env \<Rightarrow> conf \<Rightarrow> path \<Rightarrow> string \<Rightarrow> path \<Rightarrow> state \<Rightarrow> val result" where
  "try_match_features h matches_conf pairs_path features_name export_dir =
     (let run = invoke ''match_features'' (match_features h) in
      except_TypeError
        (run (args [VConf matches_conf, VPath pairs_path, VStr features_name, VPath export_dir]))
        (except_TypeError
           (run (kwargs [(''conf'', VConf matches_conf), (''pairs'', VPath pairs_path),
                         (''features'', VStr features_name),
                         (''export_dir'', VPath export_dir)]))
           (run \<lparr>pos = [VConf matches_conf, VPath pairs_path, VPath export_dir],
                 kws = [(''features'', VStr features_name)]\<rparr>)))"

definition call_match_features ::
    "env \<Rightarrow> path \<Rightarrow> string \<Rightarrow> path \<Rightarrow> state \<Rightarrow> (path \<times> conf) result" where
  "call_match_features h pairs_path features_name export_dir st =
     (let matches_conf = dict_get (match_confs h) ''lightglue'' default_matches_conf;
          t0 = clock st
      in bind (try_match_features h matches_conf pairs_path features_name export_dir)
           (\<lambda>_. case dict_get matches_conf ''output'' (JStr ''matches-superpoint-lightglue'') of
                   JStr s \<Rightarrow>
                     bind (find_matches_file export_dir s t0) (\<lambda>match_path.
                       return (match_path, matches_conf))
                 | _ \<Rightarrow> raise TypeError)
           st)"

definition call_reconstruction ::
    "env \<Rightarrow> path \<Rightarrow> path \<Rightarrow> path \<Rightarrow> path \<Rightarrow> path \<Rightarrow> state \<Rightarrow> val result" where
  "call_reconstruction h sfm_dir images_dir pairs_path feature_path match_path =
     (let run = invoke ''reconstruction'' (reconstruction h) in
      except_TypeError
        (run (args [VPath sfm_dir, VPath images_dir, VPath pairs_path, VPath feature_path,
                    VPath match_path]))
        (except_TypeError
           (run (kwargs [(''sfm_dir'', VPath sfm_dir), (''image_dir'', VPath images_dir),
                         (''pairs'', VPath pairs_path), (''features'', VPath feature_path),
                         (''matches'', VPath match_path)]))
           (run (args [VPath images_dir, VPath sfm_dir, VPath pairs_path, VPath feature_path,
                       VPath match_path]))))"

section \<open>The output consolidator\<close>

text \<open>
  \<^verbatim>\<open>move_file\<close>: the parents of the destination are created; an existing destination of
  the size of the source makes the source redundant; any other existing destination is
  unlinked, also when one of the two \<^verbatim>\<open>stat()\<close> calls or the \<^verbatim>\<open>unlink\<close> of the source
  raised; then the source is moved.
\<close>

definition same_size_unlink :: "path \<Rightarrow> path \<Rightarrow> state \<Rightarrow> bool result" where
  "same_size_unlink src dst st =
     (case lookup st src of
        None \<Rightarrow> (Inl FileNotFoundError, st)
      | Some s \<Rightarrow>
        (case lookup st dst of
           None \<Rightarrow> (Inl FileNotFoundError, st)
         | Some d \<Rightarrow>
             if st_size s = st_size d
             then bind (unlink src) (\<lambda>_. return True) st
             else (Inr False, st)))"

definition move_file :: "path \<Rightarrow> path \<Rightarrow> state \<Rightarrow> unit result" where
  "move_file src dst =
     bind (mkdir_parents (parent dst)) (\<lambda>_ st.
       if exists st dst
       then bind (except_Exception (same_size_unlink src dst) (return False)) (\<lambda>done.
              if done then return ()
              else bind (unlink dst) (\<lambda>_. shutil_move src dst)) st
       else shutil_move src dst st)"

text \<open>
  \<^verbatim>\<open>locate_sparse_dir\<close>: the directories below \<^verbatim>\<open>sfm_dir\<close> whose lower-cased entry names
  hold one of the three model file sets are sorted by their number of path components and
  the first one is returned; \<^verbatim>\<open>sfm_dir\<close> itself is looked at only when there is none.
\<close>

definition has_model :: "state \<Rightarrow> path \<Rightarrow> bool" where
  "has_model st d =
     (let files = set (map (\<lambda>q. lower (name q)) (glob st d Star)) in
      {''cameras.bin'', ''images.bin'', ''points3d.bin''} \<subseteq> files \<or>
      {''cameras.bin'', ''frames.bin'', ''points3d.bin''} \<subseteq> files \<or>
      {''cameras.txt'', ''images.txt'', ''points3d.txt''} \<subseteq> files)"

definition sparse_candidates :: "state \<Rightarrow> path \<Rightarrow> path list" where
  "sparse_candidates st sfm_dir =
     filter (\<lambda>d. is_dir st d \<and> has_model st d) (rglob st sfm_dir Star)"

definition locate_sparse_dir :: "state \<Rightarrow> path \<Rightarrow> path option" where
  "locate_sparse_dir st sfm_dir =
     (let candidates = sparse_candidates st sfm_dir in
      if candidates \<noteq> [] then Some (hd (sort_key (\<lambda>p. length (parts p)) candidates))
      else if has_model st sfm_dir then Some sfm_dir
      else None)"

text \<open>A \<^verbatim>\<open>for\<close> loop over a list that has been produced before the loop starts.\<close>

fun for_each :: "'a list \<Rightarrow> ('a \<Rightarrow> state \<Rightarrow> unit result) \<Rightarrow> state \<Rightarrow> unit result" where
  "for_each [] f st = (Inr (), st)"
| "for_each (x # xs) f st =
     (case f x st of
        (Inl e, st') \<Rightarrow> (Inl e, st')
      | (Inr _, st') \<Rightarrow> for_each xs f st')"

text \<open>
  \<^verbatim>\<open>dedup_sparse_zero\<close>: the stems of the \<^verbatim>\<open>*.bin\<close> entries are collected first; every
  \<^verbatim>\<open>*.txt\<close> entry with such a stem is unlinked, and a failing \<^verbatim>\<open>unlink\<close> is only
  reported.
\<close>

definition dedup_body :: "string set \<Rightarrow> path \<Rightarrow> state \<Rightarrow> unit result" where
  "dedup_body has_bin txt =
     (if stem_of (name txt) \<in> has_bin
      then except_Exception (unlink txt) (return ())
      else return ())"

definition dedup_sparse_zero :: "path \<Rightarrow> state \<Rightarrow> unit result" where
  "dedup_sparse_zero sparse0 st =
     (if \<not> exists st sparse0 then return () st
      else
        let has_bin = set (map (\<lambda>p. stem_of (name p)) (glob st sparse0 (StarExt ''.bin''))) in
        for_each (glob st sparse0 (StarExt ''.txt'')) (dedup_body has_bin) st)"

text \<open>
  The state that deduplication aims at: no \<^verbatim>\<open>*.txt\<close> entry of the directory that has
  the stem of one of its \<^verbatim>\<open>*.bin\<close> entries is a regular file.
\<close>

definition no_text_duplicates :: "state \<Rightarrow> path \<Rightarrow> bool" where
  "no_text_duplicates st sparse0 =
     (\<forall>t\<in>set (glob st sparse0 (StarExt ''.txt'')).
        \<forall>b\<in>set (glob st sparse0 (StarExt ''.bin'')).
          stem_of (name t) = stem_of (name b) \<longrightarrow> \<not> is_file st t)"

text \<open>
  \<^verbatim>\<open>finalize_to_colmap_layout\<close> has two steps, given here one by one: the newest
  \<^verbatim>\<open>database.db\<close> below the work area is moved to the output root, and the files of the
  reconstruction directory are moved into \<^verbatim>\<open>sparse/0\<close>, which is deduplicated then. The
  reconstruction directory is searched for in \<^verbatim>\<open>sfm\<close> first and in the whole work area
  second; when there is none, the second step does nothing.
\<close>

definition move_newest_database :: "path \<Rightarrow> path \<Rightarrow> state \<Rightarrow> unit result" where
  "move_newest_database project_out_root work_dir st =
     (let db_candidates = rglob st work_dir (Literal ''database.db'') in
      if db_candidates \<noteq> []
      then move_file (last (sort_key (mtime_of st) db_candidates))
             (project_out_root @ [''database.db'']) st
      else return () st)"

definition sparse_source :: "state \<Rightarrow> path \<Rightarrow> path option" where
  "sparse_source st work_dir =
     (case locate_sparse_dir st (work_dir @ [''sfm'']) of
        Some d \<Rightarrow> Some d
      | None \<Rightarrow> locate_sparse_dir st work_dir)"

definition move_sparse_model :: "path \<Rightarrow> path \<Rightarrow> state \<Rightarrow> unit result" where
  "move_sparse_model project_out_root work_dir st =
     (case sparse_source st work_dir of
        None \<Rightarrow> return () st
      | Some sparse_src \<Rightarrow>
          let sparse0 = project_out_root @ [''sparse'', ''0''] in
          bind (\<lambda>st. if \<not> exists st sparse0 then mkdir_parents sparse0 st else return () st)
            (\<lambda>_ st.
               bind
                 (for_each (rglob st sparse_src Star)
                    (\<lambda>p st. if is_dir st p then return () st
                            else move_file p (sparse0 @ [name p]) st))
                 (\<lambda>_. dedup_sparse_zero sparse0)
                 st)
            st)"

definition finalize_to_colmap_layout :: "path \<Rightarrow> path \<Rightarrow> state \<Rightarrow> unit result" where
  "finalize_to_colmap_layout project_out_root work_dir =
     bind (move_newest_database project_out_root work_dir)
       (\<lambda>_. move_sparse_model project_out_root work_dir)"

section \<open>The pipeline driver\<close>

definition manifest :: "path \<Rightarrow> path \<Rightarrow> path \<Rightarrow> path \<Rightarrow> int \<Rightarrow> jval" where
  "manifest project_dir images out_root work_dir max_keypoints =
     JDict
       [(''project_dir'', JStr (str_path project_dir)),
        (''images_dir'', JStr (str_path images)),
        (''output_root'', JStr (str_path out_root)),
        (''work_dir'', JStr (str_path work_dir)),
        (''settings'',
           JDict [(''max_keypoints'', JInt max_keypoints),
                  (''matching'', JStr ''lightglue''),
                  (''features'', JStr ''superpoint''),
                  (''pairing'', JStr ''exhaustive'')])]"

definition run_sfm_for_project :: "env \<Rightarrow> path \<Rightarrow> path option \<Rightarrow> int \<Rightarrow> state \<Rightarrow> unit result" where
  "run_sfm_for_project h project_dir output_root max_keypoints =
     bind (ensure_images_dir project_dir) (\<lambda>images.
       let out_root = (case output_root of Some r \<Rightarrow> r | None \<Rightarrow> project_dir);
           work_dir = out_root @ [''hloc_work''];
           sfm_dir = work_dir @ [''sfm''];
           pairs_path = work_dir @ [''pairs-exhaustive.txt'']
       in
       bind (mkdir_parents work_dir) (\<lambda>_.
       bind (write_text (work_dir @ [''run_manifest.json''])
               (json_dumps h (manifest project_dir images out_root work_dir max_keypoints))) (\<lambda>_.
       bind (\<lambda>st. if exists st sfm_dir then rmtree sfm_dir st else return () st) (\<lambda>_.
       bind (mkdir_parents sfm_dir) (\<lambda>_.
       bind (make_image_list_file images work_dir) (\<lambda>image_list_path.
       bind (call_pairs_exhaustive h images pairs_path image_list_path) (\<lambda>_.
       bind (call_extract_features h images work_dir max_keypoints) (\<lambda>(feature_path, features_name, _).
       bind (call_match_features h pairs_path features_name work_dir) (\<lambda>(match_path, _).
       bind (call_reconstruction h sfm_dir images pairs_path feature_path match_path) (\<lambda>_.
       finalize_to_colmap_layout out_root work_dir))))))))))"

text \<open>
  \<^verbatim>\<open>main\<close> after argument parsing: the projects, in the order of the command line, the
  optional output root and the key point limit.
\<close>

definition main :: "env \<Rightarrow> path list \<Rightarrow> path option \<Rightarrow> int \<Rightarrow> state \<Rightarrow> unit result" where
  "main h projects output_root max_keypoints =
     for_each projects (\<lambda>proj. run_sfm_for_project h proj output_root max_keypoints)"


text \<open>
  A stage function rejects a binding when every call with it raises \<^verbatim>\<open>TypeError\<close> and
  leaves the files and the clock as they were, as a call does whose arguments do not fit
  the signature. It takes a binding when no call with it raises \<^verbatim>\<open>TypeError\<close>.
\<close>

definition rejects :: "stage \<Rightarrow> call \<Rightarrow> bool" where
  "rejects f c = (\<forall>w. impl f c w = (Inl TypeError, w))"

definition takes :: "stage \<Rightarrow> call \<Rightarrow> bool" where
  "takes f c = (\<forall>w. fst (impl f c w) \<noteq> Inl TypeError)"

text \<open>
  A computation never shortens the trace: the number of recorded calls before it is at most
  the number after it.
\<close>

definition grows :: "(state \<Rightarrow> 'a result) \<Rightarrow> bool" where
  "grows m = (\<forall>st. length (trace st) \<le> length (trace (snd (m st))))"

section \<open>Example states\<close>

text \<open>
  A work area with one model file and an output root that already holds a file of the same
  size and a file of another size.
\<close>

definition move_example :: state where
  "move_example =
     \<lparr>nodes =
        [([], Dir 4096 0),
         ([''w''], Dir 4096 0),
         ([''w'', ''a.bin''], File ''ab'' 5),
         ([''o''], Dir 4096 0),
         ([''o'', ''a.bin''], File ''cd'' 3),
         ([''o'', ''b.bin''], File ''xyz'' 3)],
      clock = 10, trace = []\<rparr>"


text \<open>
  A reconstruction area \<^verbatim>\<open>/w/sfm\<close> with a complete binary model two levels down and another
  one four levels down.
\<close>

definition depth_example :: state where
  "depth_example =
     \<lparr>nodes =
        [([], Dir 4096 0),
         ([''w''], Dir 4096 0),
         ([''w'', ''sfm''], Dir 4096 0),
         ([''w'', ''sfm'', ''p''], Dir 4096 0),
         ([''w'', ''sfm'', ''p'', ''q''], Dir 4096 0),
         ([''w'', ''sfm'', ''p'', ''q'', ''r''], Dir 4096 0),
         ([''w'', ''sfm'', ''p'', ''q'', ''r'', ''s''], Dir 4096 0),
         ([''w'', ''sfm'', ''p'', ''q'', ''r'', ''s'', ''cameras.bin''], File ''c'' 1),
         ([''w'', ''sfm'', ''p'', ''q'', ''r'', ''s'', ''images.bin''], File ''i'' 1),
         ([''w'', ''sfm'', ''p'', ''q'', ''r'', ''s'', ''points3D.bin''], File ''p'' 1),
         ([''w'', ''sfm'', ''a''], Dir 4096 0),
         ([''w'', ''sfm'', ''a'', ''b''], Dir 4096 0),
         ([''w'', ''sfm'', ''a'', ''b'', ''cameras.bin''], File ''c'' 2),
         ([''w'', ''sfm'', ''a'', ''b'', ''images.bin''], File ''i'' 2),
         ([''w'', ''sfm'', ''a'', ''b'', ''points3D.bin''], File ''p'' 2)],
      clock = 10, trace = []\<rparr>"

text \<open>
  A reconstruction area that holds a complete model itself and a second one in
  \<^verbatim>\<open>models/1\<close>.
\<close>

definition nested_example :: state where
  "nested_example =
     \<lparr>nodes =
        [([], Dir 4096 0),
         ([''w''], Dir 4096 0),
         ([''w'', ''sfm''], Dir 4096 0),
         ([''w'', ''sfm'', ''cameras.bin''], File ''c'' 2),
         ([''w'', ''sfm'', ''images.bin''], File ''i'' 2),
         ([''w'', ''sfm'', ''points3D.bin''], File ''p'' 2),
         ([''w'', ''sfm'', ''models''], Dir 4096 0),
         ([''w'', ''sfm'', ''models'', ''1''], Dir 4096 0),
         ([''w'', ''sfm'', ''models'', ''1'', ''cameras.bin''], File ''c'' 1),
         ([''w'', ''sfm'', ''models'', ''1'', ''images.bin''], File ''i'' 1),
         ([''w'', ''sfm'', ''models'', ''1'', ''points3D.bin''], File ''p'' 1)],
      clock = 10, trace = []\<rparr>"

text \<open>
  An output root \<^verbatim>\<open>/o\<close> whose work area holds, in \<^verbatim>\<open>sfm\<close>, a binary model together
  with the text form of the cameras.
\<close>

definition consolidate_example :: state where
  "consolidate_example =
     \<lparr>nodes =
        [([], Dir 4096 0),
         ([''o''], Dir 4096 0),
         ([''o'', ''hloc_work''], Dir 4096 0),
         ([''o'', ''hloc_work'', ''sfm''], Dir 4096 0),
         ([''o'', ''hloc_work'', ''sfm'', ''cameras.bin''], File ''cb'' 5),
         ([''o'', ''hloc_work'', ''sfm'', ''images.bin''], File ''ib'' 5),
         ([''o'', ''hloc_work'', ''sfm'', ''points3D.bin''], File ''pb'' 5),
         ([''o'', ''hloc_work'', ''sfm'', ''cameras.txt''], File ''ct'' 5)],
      clock = 10, trace = []\<rparr>"

text \<open>The state that consolidation leaves from there.\<close>

definition consolidated_example :: state where
  "consolidated_example =
     \<lparr>nodes =
        [([], Dir 4096 0),
         ([''o''], Dir 4096 0),
         ([''o'', ''hloc_work''], Dir 4096 0),
         ([''o'', ''hloc_work'', ''sfm''], Dir 4096 0),
         ([''o'', ''sparse''], Dir 4096 10),
         ([''o'', ''sparse'', ''0''], Dir 4096 10),
         ([''o'', ''sparse'', ''0'', ''cameras.bin''], File ''cb'' 5),
         ([''o'', ''sparse'', ''0'', ''images.bin''], File ''ib'' 5),
         ([''o'', ''sparse'', ''0'', ''points3D.bin''], File ''pb'' 5)],
      clock = 10,
      trace =
        [Mkdir [''o'', ''sparse'', ''0''],
         Mkdir [''o'', ''sparse'', ''0''],
         Move [''o'', ''hloc_work'', ''sfm'', ''cameras.bin''] [''o'', ''sparse'', ''0'', ''cameras.bin''],
         Mkdir [''o'', ''sparse'', ''0''],
         Move [''o'', ''hloc_work'', ''sfm'', ''images.bin''] [''o'', ''sparse'', ''0'', ''images.bin''],
         Mkdir [''o'', ''sparse'', ''0''],
         Move [''o'', ''hloc_work'', ''sfm'', ''points3D.bin''] [''o'', ''sparse'', ''0'', ''points3D.bin''],
         Mkdir [''o'', ''sparse'', ''0''],
         Move [''o'', ''hloc_work'', ''sfm'', ''cameras.txt''] [''o'', ''sparse'', ''0'', ''cameras.txt''],
         Unlink [''o'', ''sparse'', ''0'', ''cameras.txt'']]\<rparr>"

text \<open>
  A reconstruction directory \<^verbatim>\<open>/s\<close> with the cameras in both forms, a text file without
  a binary form, and a directory that has the name of a text file.
\<close>

definition dedup_example :: state where
  "dedup_example =
     \<lparr>nodes =
        [([], Dir 4096 0),
         ([''s''], Dir 4096 0),
         ([''s'', ''cameras.bin''], File ''cb'' 1),
         ([''s'', ''cameras.txt''], File ''ct'' 1),
         ([''s'', ''notes.txt''], File ''n'' 1),
         ([''s'', ''images.bin''], File ''ib'' 1),
         ([''s'', ''images.txt''], Dir 4096 0)],
      clock = 10, trace = []\<rparr>"

text \<open>
  An export directory \<^verbatim>\<open>/w\<close> in which the requested matches file is missing: first with
  an old and a fresh \<^verbatim>\<open>.h5\<close> file, then with a fresh \<^verbatim>\<open>.h5\<close> file and a still fresher
  text file; the stage was started at time 100.
\<close>

definition window_example :: state where
  "window_example =
     \<lparr>nodes =
        [([], Dir 4096 0),
         ([''w''], Dir 4096 0),
         ([''w'', ''matches-old.h5''], File ''m1'' 97),
         ([''w'', ''Matches-new.h5''], File ''m2'' (399 / 4))],
      clock = 101, trace = []\<rparr>"

definition keyword_example :: state where
  "keyword_example =
     \<lparr>nodes =
        [([], Dir 4096 0),
         ([''w''], Dir 4096 0),
         ([''w'', ''matches.h5''], File ''m1'' 100),
         ([''w'', ''matches-log.txt''], File ''m2'' 105)],
      clock = 106, trace = []\<rparr>"

text \<open>
  Two projects, the first without an \<^verbatim>\<open>images\<close> directory, and an environment whose
  stage functions take any arguments and do nothing.
\<close>

definition two_projects :: state where
  "two_projects =
     \<lparr>nodes =
        [([], Dir 4096 0),
         ([''p1''], Dir 4096 0),
         ([''p2''], Dir 4096 0),
         ([''p2'', ''images''], Dir 4096 0),
         ([''p2'', ''images'', ''a.jpg''], File ''x'' 1)],
      clock = 10, trace = []\<rparr>"

definition idle_stage :: stage where
  "idle_stage = \<lparr>params = [], impl = (\<lambda>c w. (Inr VNone, w))\<rparr>"

definition idle_env :: env where
  "idle_env =
     \<lparr>pairs_from_exhaustive = idle_stage, extract_features = idle_stage,
      match_features = idle_stage, reconstruction = idle_stage,
      extract_confs = [], match_confs = [], json_dumps = (\<lambda>j. [])\<rparr>"

text \<open>
  Stage functions: one that takes \<^verbatim>\<open>image_list\<close> and \<^verbatim>\<open>output\<close> by name or by
  position, one that declares a positional-only \<^verbatim>\<open>image_dir\<close> with a default and takes
  \<^verbatim>\<open>image_list\<close> and \<^verbatim>\<open>output\<close> by keyword, one that declares \<^verbatim>\<open>image_list\<close> and
  \<^verbatim>\<open>output\<close> as positional-only parameters, one that takes three positional arguments
  and \<^verbatim>\<open>features\<close> by keyword, and those that take exactly the given names, by keyword
  only.
\<close>

definition accepts :: "call \<Rightarrow> bool" where
  "accepts c = (length (pos c) + length (kws c) = 2 \<and>
     set (map fst (kws c)) \<subseteq> set (drop (length (pos c)) [''image_list'', ''output'']))"

definition list_stage :: stage where
  "list_stage =
     \<lparr>params = [''image_list'', ''output''],
      impl = (\<lambda>c w. if accepts c then (Inr VNone, w) else (Inl TypeError, w))\<rparr>"

definition optional_dir_stage :: stage where
  "optional_dir_stage =
     \<lparr>params = [''image_dir'', ''image_list'', ''output''],
      impl = (\<lambda>c w. if length (pos c) \<le> 1 \<and> length (kws c) = 2 \<and>
                        distinct (map fst (kws c)) \<and>
                        set (map fst (kws c)) \<subseteq> {''image_list'', ''output''}
                     then (Inr VNone, w) else (Inl TypeError, w))\<rparr>"

definition features_keyword_stage :: stage where
  "features_keyword_stage =
     \<lparr>params = [''a'', ''b'', ''c'', ''features''],
      impl = (\<lambda>c w. if length (pos c) = 3 \<and> map fst (kws c) = [''features'']
                     then (Inr VNone, w) else (Inl TypeError, w))\<rparr>"

definition positional_stage :: stage where
  "positional_stage =
     \<lparr>params = [''image_list'', ''output''],
      impl = (\<lambda>c w. if length (pos c) = 2 \<and> kws c = [] then (Inr VNone, w)
                     else (Inl TypeError, w))\<rparr>"

definition keyword_only :: "string list \<Rightarrow> stage" where
  "keyword_only names =
     \<lparr>params = names,
      impl = (\<lambda>c w. if pos c = [] \<and> distinct (map fst (kws c)) \<and>
                        set (map fst (kws c)) = set names
                     then (Inr VNone, w) else (Inl TypeError, w))\<rparr>"

text \<open>
  A project \<^verbatim>\<open>/p\<close> with two images, one of them in a subdirectory, and a text file, and a
  work area \<^verbatim>\<open>/w\<close>.
\<close>

definition images_example :: state where
  "images_example =
     \<lparr>nodes =
        [([], Dir 4096 0),
         ([''w''], Dir 4096 0),
         ([''p''], Dir 4096 0),
         ([''p'', ''images''], Dir 4096 0),
         ([''p'', ''images'', ''sub''], Dir 4096 0),
         ([''p'', ''images'', ''sub'', ''a.png''], File ''x'' 1),
         ([''p'', ''images'', ''notes.txt''], File ''y'' 1),
         ([''p'', ''images'', ''b.JPG''], File ''z'' 1)],
      clock = 10, trace = []\<rparr>"

section \<open>Facts about the file system primitives\<close>

lemma mkdirs_dir: "map_of fs p = Some (Dir s t) \<Longrightarrow> mkdirs now p fs = Inr fs"
  by (subst mkdirs.simps) simp

lemma lookup_log [simp]: "lookup (log e st) p = lookup st p"
  by (simp add: lookup_def log_def)


lemma wf_state_nodes: "wf_state st \<Longrightarrow> wf_nodes (nodes st)"
proof -
  assume wf: "wf_state st"
  show ?thesis
    unfolding wf_nodes_def
  proof (intro allI impI)
    fix q n assume q: "map_of (nodes st) q = Some n" "q \<noteq> []"
    then have "q \<in> set (map fst (nodes st))"
      by (metis map_of_SomeD fst_conv image_eqI set_map)
    with wf q(2) have "is_dir st (parent q)"
      by (auto simp: wf_state_def list_all_iff)
    then show "\<exists>s t. map_of (nodes st) (butlast q) = Some (Dir s t)"
      by (auto simp: is_dir_def lookup_def parent_def split: option.splits node.splits)
  qed
qed

lemma wf_nodes_prefix:
  "wf_nodes fs \<Longrightarrow> map_of fs p = Some (Dir s t) \<Longrightarrow> prefix q p \<Longrightarrow> \<exists>s t. map_of fs q = Some (Dir s t)"
proof (induction p arbitrary: s t rule: rev_induct)
  case Nil
  then show ?case by simp
next
  case (snoc y ys)
  show ?case
  proof (cases "q = ys @ [y]")
    case True
    with snoc.prems show ?thesis by blast
  next
    case False
    with snoc.prems(3) have q: "prefix q ys" by (simp add: prefix_snoc)
    from snoc.prems(1,2) obtain s' t' where "map_of fs ys = Some (Dir s' t')"
      unfolding wf_nodes_def by fastforce
    from snoc.IH[OF snoc.prems(1) this q] show ?thesis .
  qed
qed

lemma mkdirs_extends:
  "wf_nodes fs \<Longrightarrow> mkdirs now p fs = Inr fs' \<Longrightarrow>
     (\<forall>q. map_of fs q \<noteq> None \<longrightarrow> map_of fs' q = map_of fs q) \<and>
     (\<forall>q. map_of fs q = None \<longrightarrow> map_of fs' q = (if prefix q p then Some (Dir fresh_dir_size now) else None))"
proof (induction now p fs arbitrary: fs' rule: mkdirs.induct)
  case (1 now p fs)
  show ?case
  proof (cases "map_of fs p")
    case (Some n)
    with "1.prems"(2) obtain s t where n: "n = Dir s t" and eq: "fs' = fs"
      by (subst (asm) mkdirs.simps) (auto split: node.splits)
    show ?thesis unfolding eq using Some n wf_nodes_prefix[OF "1.prems"(1)] by fastforce
  next
    case None
    show ?thesis
    proof (cases "p = []")
      case True
      with None "1.prems"(2) have "fs' = fs @ [([], Dir fresh_dir_size now)]"
        by (subst (asm) mkdirs.simps) auto
      with True None show ?thesis
        by (auto simp: map_add_def split: option.splits)
    next
      case False
      with None "1.prems"(2) obtain fs1 where
        rec: "mkdirs now (butlast p) fs = Inr fs1" and fs': "fs' = fs1 @ [(p, Dir fresh_dir_size now)]"
        by (subst (asm) mkdirs.simps) (auto split: sum.splits)
      note IH = "1.IH"[OF None False "1.prems"(1) rec]
      have pre: "prefix q p \<longleftrightarrow> q = p \<or> prefix q (butlast p)" for q
        using False by (metis append_butlast_last_id prefix_snoc)
      show ?thesis
        unfolding fs' using IH None pre
        by (auto simp: map_add_def split: option.splits)
    qed
  qed
qed


lemma lookup_delete [simp]:
  "lookup (st\<lparr>nodes := AList.delete p (nodes st)\<rparr>) q = (if q = p then None else lookup st q)"
  by (simp add: lookup_def delete_conv')

lemma lookup_update [simp]:
  "lookup (st\<lparr>nodes := AList.update p n (nodes st)\<rparr>) q = (if q = p then Some n else lookup st q)"
  by (simp add: lookup_def update_conv')

lemma nodes_log [simp]: "nodes (log e st) = nodes st"
  by (simp add: log_def)

lemma clock_log [simp]: "clock (log e st) = clock st"
  by (simp add: log_def)

lemma lookup_set_nodes: "lookup (st\<lparr>nodes := fs\<rparr>) q = map_of fs q"
  by (simp add: lookup_def)

lemma map_of_nodes: "map_of (nodes st) q = lookup st q"
  by (simp add: lookup_def)

lemmas fs_simps = lookup_set_nodes map_of_nodes delete_conv' update_conv'

lemma wf_parent_dir:
  assumes "wf_state st" "lookup st p = Some n"
  shows "is_dir st (parent p)"
proof -
  from assms(2) have "p \<in> set (map fst (nodes st))"
    by (auto simp: lookup_def dest: map_of_SomeD intro: rev_image_eqI)
  with assms(1) have "p = [] \<or> is_dir st (parent p)"
    by (auto simp: wf_state_def list_all_iff)
  with assms(1) show ?thesis
    by (auto simp: wf_state_def parent_def)
qed

lemma mkdir_parents_dir:
  "is_dir st p \<Longrightarrow> mkdir_parents p st = (Inr (), log (Mkdir p) st)"
  by (auto simp: mkdir_parents_def is_dir_def lookup_def log_def Let_def mkdirs_dir
      split: option.splits node.splits)

lemma mkdirs_ok:
  "(\<forall>q c t. prefix q p \<longrightarrow> map_of fs q \<noteq> Some (File c t)) \<Longrightarrow> \<exists>fs'. mkdirs now p fs = Inr fs'"
proof (induction now p fs rule: mkdirs.induct)
  case (1 now p fs)
  show ?case
  proof (cases "map_of fs p")
    case (Some n)
    with "1.prems" show ?thesis
      by (subst mkdirs.simps) (auto split: node.splits)
  next
    case None
    show ?thesis
    proof (cases "p = []")
      case True
      with None show ?thesis by (subst mkdirs.simps) auto
    next
      case False
      have "\<forall>q c t. prefix q (butlast p) \<longrightarrow> map_of fs q \<noteq> Some (File c t)"
        using "1.prems" by (meson prefixeq_butlast prefix_order.trans)
      from "1.IH"[OF None False this] obtain fs1 where "mkdirs now (butlast p) fs = Inr fs1" ..
      with None False show ?thesis by (subst mkdirs.simps) auto
    qed
  qed
qed

lemma move_file_same_size:
  assumes wf: "wf_state st" and src: "lookup st src = Some (File c t)" and ne: "src \<noteq> dst"
    and d: "lookup st dst = Some d" and sz: "st_size d = length c"
  shows "\<exists>st'. move_file src dst st = (Inr (), st') \<and> lookup st' src = None \<and> lookup st' dst = Some d"
proof -
  have mk: "mkdir_parents (parent dst) st = (Inr (), log (Mkdir (parent dst)) st)"
    using wf_parent_dir[OF wf d] by (rule mkdir_parents_dir)
  show ?thesis
    using src d sz ne
    apply (simp add: move_file_def bind_def mk exists_def except_Exception_def same_size_unlink_def)
    apply (simp add: unlink_def return_def Let_def  bind_def)
    apply (simp add: fs_simps)
    done
qed

lemma move_file_other_size:
  assumes wf: "wf_state st" and src: "lookup st src = Some (File c t)" and ne: "src \<noteq> dst"
    and d: "lookup st dst = Some (File c' t')" and sz: "length c' \<noteq> length c"
  shows "\<exists>st'. move_file src dst st = (Inr (), st') \<and> lookup st' src = None \<and>
           lookup st' dst = Some (File c t)"
proof -
  have mk: "mkdir_parents (parent dst) st = (Inr (), log (Mkdir (parent dst)) st)"
    using wf_parent_dir[OF wf d] by (rule mkdir_parents_dir)
  show ?thesis
    using src d sz ne
    apply (simp add: move_file_def bind_def mk exists_def except_Exception_def same_size_unlink_def)
    apply (simp add: unlink_def return_def Let_def  bind_def shutil_move_def)
    apply (simp add: fs_simps)
    done
qed

lemma move_file_absent:
  assumes wf: "wf_state st" and src: "lookup st src = Some (File c t)"
    and d: "lookup st dst = None"
    and anc: "\<And>q c' t'. strict_prefix q dst \<Longrightarrow> lookup st q \<noteq> Some (File c' t')"
  shows "\<exists>st'. move_file src dst st = (Inr (), st') \<and> lookup st' src = None \<and>
           lookup st' dst = Some (File c t) \<and> (\<forall>q. strict_prefix q dst \<longrightarrow> is_dir st' q)"
proof -
  from src d have ne: "src \<noteq> dst" by auto
  from wf have "is_dir st []" by (simp add: wf_state_def)
  with d have dne: "dst \<noteq> []" by (auto simp: is_dir_def)
  have sp: "prefix q (butlast dst) \<longleftrightarrow> strict_prefix q dst" for q
  proof -
    from dne obtain ys y where "dst = ys @ [y]" by (cases dst rule: rev_cases) auto
    then show ?thesis
      by (auto simp: strict_prefix_def prefix_snoc dest: prefix_length_le)
  qed
  have "\<forall>q c t. prefix q (butlast dst) \<longrightarrow> map_of (nodes st) q \<noteq> Some (File c t)"
    using anc sp by (auto simp: lookup_def)
  from mkdirs_ok[OF this] obtain fs1 where fs1: "mkdirs (clock st) (butlast dst) (nodes st) = Inr fs1" ..
  note ext = mkdirs_extends[OF wf_state_nodes[OF wf] fs1]
  define st1 where "st1 = (log (Mkdir (parent dst)) st)\<lparr>nodes := fs1\<rparr>"
  have mk: "mkdir_parents (parent dst) st = (Inr (), st1)"
    by (simp add: mkdir_parents_def Let_def log_def parent_def fs1 st1_def)
  have l1: "nodes st1 = fs1" by (simp add: st1_def)
  note x1 = ext[THEN conjunct1, rule_format] and x2 = ext[THEN conjunct2, rule_format]
  have e1: "lookup st1 q = lookup st q" if "lookup st q \<noteq> None" for q
    using x1[of q] that by (simp add: l1 lookup_def)
  have e2: "lookup st1 q = (if strict_prefix q dst then Some (Dir fresh_dir_size (clock st)) else None)"
    if "lookup st q = None" for q
    using x2[of q] that by (simp add: l1 lookup_def sp)
  have s1: "lookup st1 src = Some (File c t)" using e1[of src] src by simp
  have d1: "lookup st1 dst = None" using e2[OF d] by simp
  have a1: "is_dir st1 q" if "strict_prefix q dst" for q
  proof (cases "lookup st q")
    case None
    from e2[OF None] that show ?thesis by (simp add: is_dir_def)
  next
    case (Some n)
    with anc[OF that] obtain s' t' where "n = Dir s' t'" by (cases n) auto
    with Some e1[of q] show ?thesis by (simp add: is_dir_def)
  qed
  define st2 where "st2 = (log (Move src dst) st1)\<lparr>nodes := AList.update dst (File c t) (AList.delete src (nodes st1))\<rparr>"
  have l2: "lookup st2 q = (if q = dst then Some (File c t) else if q = src then None else lookup st1 q)" for q
    by (simp add: st2_def fs_simps)
  have mv: "move_file src dst st = (Inr (), st2)"
    using s1 d1 by (simp add: move_file_def bind_def mk exists_def shutil_move_def Let_def st2_def)
  have "is_dir st2 q" if "strict_prefix q dst" for q
  proof -
    from a1[OF that] s1 have "q \<noteq> src" by (auto simp: is_dir_def)
    moreover from that have "q \<noteq> dst" by auto
    ultimately show ?thesis using a1[OF that] by (simp add: is_dir_def l2)
  qed
  with mv l2 ne show ?thesis
    by simp
qed

lemma move_file_after_mkdir:
  "mkdir_parents (parent dst) st = (Inr (), sm) \<Longrightarrow>
   move_file src dst st =
     (if exists sm dst
      then bind (except_Exception (same_size_unlink src dst) (return False)) (\<lambda>done.
              if done then return ()
              else bind (unlink dst) (\<lambda>_. shutil_move src dst)) sm
       else shutil_move src dst sm)"
  by (simp add: move_file_def bind_def)

lemma move_file_mkdir_ok:
  assumes "move_file src dst st = (Inr (), st1)"
  shows "\<exists>sm. mkdir_parents (parent dst) st = (Inr (), sm)"
proof (cases "mkdir_parents (parent dst) st")
  case (Pair r sm)
  with assms show ?thesis
    by (cases r) (auto simp: move_file_def bind_def)
qed

text \<open>What a successful mkdir leaves.\<close>

lemma mkdir_parents_effect:
  assumes wf: "wf_state st" and mk: "mkdir_parents p st = (Inr (), sm)"
  shows "is_dir sm p"
    and "\<And>q. lookup st q \<noteq> None \<Longrightarrow> lookup sm q = lookup st q"
    and "\<And>q. lookup st q = None \<Longrightarrow> \<not> prefix q p \<Longrightarrow> lookup sm q = None"
proof -
  from mk obtain fs where fs: "mkdirs (clock st) p (nodes st) = Inr fs"
    and sm: "sm = (log (Mkdir p) st)\<lparr>nodes := fs\<rparr>"
    by (auto simp: mkdir_parents_def Let_def split: sum.splits)
  note ext = mkdirs_extends[OF wf_state_nodes[OF wf] fs]
  note x1 = ext[THEN conjunct1, rule_format] and x2 = ext[THEN conjunct2, rule_format]
  have n: "nodes sm = fs" by (simp add: sm)
  show a: "lookup sm q = lookup st q" if "lookup st q \<noteq> None" for q
    using x1[of q] that by (simp add: lookup_def n)
  show b: "lookup sm q = None" if "lookup st q = None" "\<not> prefix q p" for q
    using x2[of q] that by (simp add: lookup_def n)
  show d: "is_dir sm p"
  proof (cases "map_of (nodes st) p")
    case None
    with x2[of p] show ?thesis by (simp add: is_dir_def lookup_def n)
  next
    case (Some nd)
    with fs obtain s t where "nd = Dir s t" and "fs = nodes st"
      by (subst (asm) mkdirs.simps) (auto split: node.splits)
    with Some show ?thesis by (simp add: is_dir_def lookup_def n)
  qed
qed


lemma not_prefix_parent: "p \<noteq> [] \<Longrightarrow> \<not> prefix p (parent p)"
  by (cases p rule: rev_cases) (auto simp: parent_def dest!: prefix_length_le)

lemma is_dir_recreate:
  "is_dir st1 p \<Longrightarrow> p \<noteq> src \<Longrightarrow> is_dir (st1\<lparr>nodes := AList.update src (File c t') (nodes st1)\<rparr>) p"
  by (simp add: is_dir_def fs_simps)

section \<open>The move primitive\<close>

text \<open>
  Claim C4. Let the source be a regular file in a well-formed state and the destination
  another path. If the destination exists and \<^verbatim>\<open>stat()\<close> reports for it the size of the
  source, \<^verbatim>\<open>move_file\<close> returns, the source is gone and the destination is what it was.
  If the destination is a regular file of another size, \<^verbatim>\<open>move_file\<close> returns, the
  source is gone and the destination is the source file. If the destination does not exist
  and no regular file stands in the place of one of its ancestors, \<^verbatim>\<open>move_file\<close>
  returns, the source is gone, the destination is the source file and every ancestor of the
  destination is a directory.
\<close>

theorem move_file_three_cases:
  assumes wf: "wf_state st" and src: "lookup st src = Some (File c t)" and ne: "src \<noteq> dst"
  shows
    "(\<forall>d. lookup st dst = Some d \<and> st_size d = length c \<longrightarrow>
        (\<exists>st'. move_file src dst st = (Inr (), st') \<and>
               lookup st' src = None \<and> lookup st' dst = Some d)) \<and>
     (\<forall>c' t'. lookup st dst = Some (File c' t') \<and> length c' \<noteq> length c \<longrightarrow>
        (\<exists>st'. move_file src dst st = (Inr (), st') \<and>
               lookup st' src = None \<and> lookup st' dst = Some (File c t))) \<and>
     (lookup st dst = None \<and> (\<forall>q c' t'. strict_prefix q dst \<longrightarrow> lookup st q \<noteq> Some (File c' t')) \<longrightarrow>
        (\<exists>st'. move_file src dst st = (Inr (), st') \<and>
               lookup st' src = None \<and> lookup st' dst = Some (File c t) \<and>
               (\<forall>q. strict_prefix q dst \<longrightarrow> is_dir st' q)))"
  using move_file_same_size[OF wf src ne] move_file_other_size[OF wf src ne]
    move_file_absent[OF wf src]
  by blast

theorem move_file_three_cases_witness:
  "(\<exists>st'. move_file [''w'', ''a.bin''] [''o'', ''a.bin''] move_example = (Inr (), st') \<and>
          lookup st' [''w'', ''a.bin''] = None \<and>
          lookup st' [''o'', ''a.bin''] = Some (File ''cd'' 3)) \<and>
   (\<exists>st'. move_file [''w'', ''a.bin''] [''o'', ''b.bin''] move_example = (Inr (), st') \<and>
          lookup st' [''w'', ''a.bin''] = None \<and>
          lookup st' [''o'', ''b.bin''] = Some (File ''ab'' 5)) \<and>
   (\<exists>st'. move_file [''w'', ''a.bin''] [''o'', ''sparse'', ''0'', ''a.bin''] move_example = (Inr (), st') \<and>
          lookup st' [''w'', ''a.bin''] = None \<and>
          lookup st' [''o'', ''sparse'', ''0'', ''a.bin''] = Some (File ''ab'' 5) \<and>
          (\<forall>q. strict_prefix q [''o'', ''sparse'', ''0'', ''a.bin''] \<longrightarrow> is_dir st' q))"
proof -
  have wf: "wf_state move_example"
    by (simp add: move_example_def wf_state_def is_dir_def lookup_def parent_def)
  have src: "lookup move_example [''w'', ''a.bin''] = Some (File ''ab'' 5)"
    by (simp add: move_example_def lookup_def)
  have d1: "lookup move_example [''o'', ''a.bin''] = Some (File ''cd'' 3) \<and> st_size (File ''cd'' 3) = length ''ab''"
    by (simp add: move_example_def lookup_def)
  have d2: "lookup move_example [''o'', ''b.bin''] = Some (File ''xyz'' 3) \<and> length ''xyz'' \<noteq> length ''ab''"
    by (simp add: move_example_def lookup_def)
  have d3: "lookup move_example [''o'', ''sparse'', ''0'', ''a.bin''] = None \<and>
      (\<forall>q c' t'. strict_prefix q [''o'', ''sparse'', ''0'', ''a.bin''] \<longrightarrow> lookup move_example q \<noteq> Some (File c' t'))"
    by (auto simp: move_example_def lookup_def split: list.splits)
  from move_file_three_cases[OF wf src, of "[''o'', ''a.bin'']"] d1
  have "\<exists>st'. move_file [''w'', ''a.bin''] [''o'', ''a.bin''] move_example = (Inr (), st') \<and>
          lookup st' [''w'', ''a.bin''] = None \<and>
          lookup st' [''o'', ''a.bin''] = Some (File ''cd'' 3)" by simp
  moreover from move_file_three_cases[OF wf src, of "[''o'', ''b.bin'']"] d2
  have "\<exists>st'. move_file [''w'', ''a.bin''] [''o'', ''b.bin''] move_example = (Inr (), st') \<and>
          lookup st' [''w'', ''a.bin''] = None \<and>
          lookup st' [''o'', ''b.bin''] = Some (File ''ab'' 5)" by simp
  moreover from move_file_three_cases[OF wf src, of "[''o'', ''sparse'', ''0'', ''a.bin'']"] d3
  have "\<exists>st'. move_file [''w'', ''a.bin''] [''o'', ''sparse'', ''0'', ''a.bin''] move_example = (Inr (), st') \<and>
          lookup st' [''w'', ''a.bin''] = None \<and>
          lookup st' [''o'', ''sparse'', ''0'', ''a.bin''] = Some (File ''ab'' 5) \<and>
          (\<forall>q. strict_prefix q [''o'', ''sparse'', ''0'', ''a.bin''] \<longrightarrow> is_dir st' q)" by simp
  ultimately show ?thesis by blast
qed

text \<open>
  Claim C5. Let \<^verbatim>\<open>move_file\<close> have returned for a regular source file and a destination,
  and let the source be produced again with the same content (at any time). Then the second
  application returns as well and leaves every path, the destination among them, as the
  first application left it.
\<close>

theorem move_file_idempotent:
  assumes wf: "wf_state st"
    and src: "lookup st src = Some (File c t)"
    and first: "move_file src dst st = (Inr (), st1)"
  shows "\<exists>st2. move_file src dst (st1\<lparr>nodes := AList.update src (File c t') (nodes st1)\<rparr>) = (Inr (), st2) \<and>
           (\<forall>q. lookup st2 q = lookup st1 q)"
proof -
  from move_file_mkdir_ok[OF first] obtain sm where mk: "mkdir_parents (parent dst) st = (Inr (), sm)" ..
  note eff = mkdir_parents_effect[OF wf mk]
  have sm_src: "lookup sm src = Some (File c t)" using eff(2)[of src] src by simp
  from wf have root: "is_dir st []" by (simp add: wf_state_def)
  have sm_dst: "lookup sm dst = lookup st dst"
  proof (cases "lookup st dst")
    case None
    with root have "dst \<noteq> []" by (auto simp: is_dir_def)
    from eff(3)[OF None not_prefix_parent[OF this]] None show ?thesis by simp
  next
    case (Some d)
    with eff(2)[of dst] show ?thesis by simp
  qed
  note cont = first[unfolded move_file_after_mkdir[OF mk]]
  define sr where "sr = st1\<lparr>nodes := AList.update src (File c t') (nodes st1)\<rparr>"
  have lr: "lookup sr q = (if q = src then Some (File c t') else lookup st1 q)" for q
    by (simp add: sr_def fs_simps)
  text \<open>After the first application the destination exists with the size of the source,
    the source is gone and the parent of the destination is still a directory.\<close>
  have post: "lookup st1 src = None \<and> (\<exists>d. lookup (if src = dst then sr else st1) dst = Some d \<and> st_size d = length c)
      \<and> is_dir st1 (parent dst)"
  proof (cases "lookup sm dst")
    case None
    with sm_src have ne: "src \<noteq> dst" by auto
    from None sm_dst root have dne: "dst \<noteq> []" by (auto simp: is_dir_def)
    then have pne: "parent dst \<noteq> dst"
      by (cases dst rule: rev_cases) (auto simp: parent_def)
    from eff(1) sm_src have psrc: "parent dst \<noteq> src" by (auto simp: is_dir_def)
    from cont None sm_src
    have st1: "st1 = (log (Move src dst) sm)\<lparr>nodes := AList.update dst (File c t) (AList.delete src (nodes sm))\<rparr>"
      by (simp add: exists_def shutil_move_def Let_def)
    have l1: "lookup st1 q = (if q = dst then Some (File c t) else if q = src then None else lookup sm q)" for q
      by (simp add: st1 fs_simps)
    from eff(1) pne psrc ne show ?thesis by (simp add: l1 is_dir_def)
  next
    case (Some d)
    from eff(1) sm_src have psrc: "parent dst \<noteq> src" by (auto simp: is_dir_def)
    show ?thesis
    proof (cases "st_size d = length c")
      case True
      from cont Some sm_src True
      have st1: "st1 = (log (Unlink src) sm)\<lparr>nodes := AList.delete src (nodes sm)\<rparr>"
        by (simp add: exists_def bind_def except_Exception_def same_size_unlink_def unlink_def
            return_def Let_def)
      have l1: "lookup st1 q = (if q = src then None else lookup sm q)" for q
        by (simp add: st1 fs_simps)
      from eff(1) psrc Some True show ?thesis by (auto simp: l1 lr is_dir_def)
    next
      case False
      with Some sm_src have ne: "src \<noteq> dst" by auto
      from cont Some sm_src False
      have ul: "bind (unlink dst) (\<lambda>_. shutil_move src dst) sm = (Inr (), st1)"
        by (simp add: exists_def bind_def except_Exception_def same_size_unlink_def return_def)
      then obtain c' t' where d: "d = File c' t'"
        using Some by (cases d) (auto simp: bind_def unlink_def Let_def)
      then have pne: "parent dst \<noteq> dst" using eff(1) Some by (auto simp: is_dir_def)
      from ul Some d sm_src ne
      have st1: "st1 = (log (Move src dst) (log (Unlink dst) sm))\<lparr>nodes :=
           AList.update dst (File c t) (AList.delete src (AList.delete dst (nodes sm)))\<rparr>"
        by (simp add: bind_def unlink_def shutil_move_def Let_def fs_simps) (auto simp: log_def)
      have l1: "lookup st1 q = (if q = dst then Some (File c t) else if q = src then None else lookup sm q)" for q
        by (simp add: st1 fs_simps)
      from eff(1) pne psrc ne show ?thesis by (simp add: l1 is_dir_def)
    qed
  qed
  then have pd: "is_dir sr (parent dst)"
    unfolding sr_def by (intro is_dir_recreate) (auto simp: is_dir_def)
  have mk2: "mkdir_parents (parent dst) sr = (Inr (), log (Mkdir (parent dst)) sr)"
    by (rule mkdir_parents_dir[OF pd])
  from post obtain d where d: "lookup sr dst = Some d" "st_size d = length c"
    by (auto simp: lr split: if_splits)
  have "move_file src dst sr = (Inr (), (log (Unlink src) (log (Mkdir (parent dst)) sr))\<lparr>nodes := AList.delete src (nodes sr)\<rparr>)"
    using d lr[of src]
    by (simp add: move_file_after_mkdir[OF mk2] exists_def bind_def except_Exception_def
        same_size_unlink_def unlink_def return_def Let_def)
  moreover have "lookup ((log (Unlink src) (log (Mkdir (parent dst)) sr))\<lparr>nodes := AList.delete src (nodes sr)\<rparr>) q = lookup st1 q" for q
    using post by (simp add: fs_simps lr)
  ultimately show ?thesis unfolding sr_def by blast
qed


theorem move_file_idempotent_witness:
  "\<exists>st1 st2.
     move_file [''w'', ''a.bin''] [''o'', ''b.bin''] move_example = (Inr (), st1) \<and>
     move_file [''w'', ''a.bin''] [''o'', ''b.bin'']
       (st1\<lparr>nodes := AList.update [''w'', ''a.bin''] (File ''ab'' 7) (nodes st1)\<rparr>) = (Inr (), st2) \<and>
     (\<forall>q. lookup st2 q = lookup st1 q)"
proof -
  have wf: "wf_state move_example"
    by (simp add: move_example_def wf_state_def is_dir_def lookup_def parent_def)
  have src: "lookup move_example [''w'', ''a.bin''] = Some (File ''ab'' 5)"
    by (simp add: move_example_def lookup_def)
  have "fst (move_file [''w'', ''a.bin''] [''o'', ''b.bin''] move_example) = Inr ()"
    by (simp add: move_example_def move_file_def bind_def mkdir_parents_def mkdirs.simps log_def
        parent_def exists_def lookup_def except_Exception_def same_size_unlink_def unlink_def
        return_def shutil_move_def)
  then have first: "move_file [''w'', ''a.bin''] [''o'', ''b.bin''] move_example =
      (Inr (), snd (move_file [''w'', ''a.bin''] [''o'', ''b.bin''] move_example))"
    by (simp add: prod_eq_iff)
  from move_file_idempotent[OF wf src first, of 7] first show ?thesis by blast
qed

text \<open>
  For comparison: when the source is not produced again, a second call on the same two
  paths finds the destination, fails to read the size of the missing source, unlinks the
  destination and raises when it tries to move the source. The callers of \<^verbatim>\<open>move_file\<close>
  only pass sources that a directory scan has just yielded.
\<close>

lemma move_file_again_without_source:
  "fst (move_file [''w'', ''a.bin''] [''o'', ''b.bin'']
          (snd (move_file [''w'', ''a.bin''] [''o'', ''b.bin''] move_example))) =
     Inl FileNotFoundError \<and>
   lookup (snd (move_file [''w'', ''a.bin''] [''o'', ''b.bin'']
                  (snd (move_file [''w'', ''a.bin''] [''o'', ''b.bin''] move_example))))
     [''o'', ''b.bin''] = None"
  by (simp add: move_example_def move_file_def bind_def mkdir_parents_def mkdirs.simps log_def
      parent_def exists_def lookup_def except_Exception_def same_size_unlink_def unlink_def
      return_def shutil_move_def)

text \<open>
  Claim C2 says that the file surviving at the destination always has the content of the
  source. The primitive compares sizes, not contents: in \<^term>\<open>move_example\<close> the source
  \<^verbatim>\<open>/w/a.bin\<close> holds \<^verbatim>\<open>ab\<close> and the destination \<^verbatim>\<open>/o/a.bin\<close> holds \<^verbatim>\<open>cd\<close>; after
  \<^verbatim>\<open>move_file\<close> the destination still holds \<^verbatim>\<open>cd\<close> and the source is gone.
\<close>

theorem move_file_equal_size_counterexample:
  "lookup move_example [''w'', ''a.bin''] = Some (File ''ab'' 5) \<and>
   lookup move_example [''o'', ''a.bin''] = Some (File ''cd'' 3) \<and>
   fst (move_file [''w'', ''a.bin''] [''o'', ''a.bin''] move_example) = Inr () \<and>
   lookup (snd (move_file [''w'', ''a.bin''] [''o'', ''a.bin''] move_example)) [''o'', ''a.bin'']
     = Some (File ''cd'' 3) \<and>
   lookup (snd (move_file [''w'', ''a.bin''] [''o'', ''a.bin''] move_example)) [''w'', ''a.bin'']
     = None"
  by (simp add: move_example_def move_file_def bind_def mkdir_parents_def mkdirs.simps log_def
      parent_def exists_def lookup_def except_Exception_def same_size_unlink_def unlink_def
      return_def)

text \<open>
  Claim C2 as amended. When \<^verbatim>\<open>move_file\<close> is applied to a source file and an existing
  destination file of another byte size, the file that survives at the destination is the
  source file; when the two sizes are equal the destination keeps its own content, whatever
  the content of the source is. In both cases the source path is gone afterwards.
\<close>

theorem move_file_survivor:
  assumes "wf_state st" and "lookup st src = Some (File c t)"
    and "lookup st dst = Some (File c' t')" and "src \<noteq> dst"
  shows "\<exists>st'. move_file src dst st = (Inr (), st') \<and> lookup st' src = None \<and>
           lookup st' dst = Some (if length c' = length c then File c' t' else File c t)"
proof (cases "length c' = length c")
  case True
  with move_file_same_size[OF assms(1,2,4,3)] show ?thesis by simp
next
  case False
  with move_file_other_size[OF assms(1,2,4,3)] show ?thesis by simp
qed

theorem move_file_survivor_witness:
  "(\<exists>st'. move_file [''w'', ''a.bin''] [''o'', ''a.bin''] move_example = (Inr (), st') \<and>
          lookup st' [''w'', ''a.bin''] = None \<and>
          lookup st' [''o'', ''a.bin''] = Some (File ''cd'' 3)) \<and>
   (\<exists>st'. move_file [''w'', ''a.bin''] [''o'', ''b.bin''] move_example = (Inr (), st') \<and>
          lookup st' [''w'', ''a.bin''] = None \<and>
          lookup st' [''o'', ''b.bin''] = Some (File ''ab'' 5))"
proof -
  have wf: "wf_state move_example"
    by (simp add: move_example_def wf_state_def is_dir_def lookup_def parent_def)
  have src: "lookup move_example [''w'', ''a.bin''] = Some (File ''ab'' 5)"
    by (simp add: move_example_def lookup_def)
  have d1: "lookup move_example [''o'', ''a.bin''] = Some (File ''cd'' 3)"
    by (simp add: move_example_def lookup_def)
  have d2: "lookup move_example [''o'', ''b.bin''] = Some (File ''xyz'' 3)"
    by (simp add: move_example_def lookup_def)
  from move_file_survivor[OF wf src d1] move_file_survivor[OF wf src d2]
  show ?thesis by simp
qed

section \<open>Discovery of the reconstruction directory\<close>

lemma hd_sort_key_least:
  fixes f :: "'a \<Rightarrow> nat"
  assumes "xs \<noteq> []"
  shows "hd (sort_key f xs) \<in> set xs \<and> (\<forall>y\<in>set xs. f (hd (sort_key f xs)) \<le> f y)"
proof -
  from assms have "sort_key f xs \<noteq> []" by (metis length_sort length_0_conv)
  then obtain z zs where ys: "sort_key f xs = z # zs" by (cases "sort_key f xs") auto
  have "sorted (map f (sort_key f xs))" by (rule sorted_sort_key)
  with ys have "\<forall>y\<in>set zs. f z \<le> f y" by simp
  moreover have "set (z # zs) = set xs" using ys by (metis set_sort)
  ultimately show ?thesis unfolding ys by auto
qed

lemma is_dir_listed: "is_dir st d \<Longrightarrow> d \<in> fst ` set (nodes st)"
  by (auto simp: is_dir_def lookup_def split: option.splits dest!: map_of_SomeD
      intro: rev_image_eqI)

lemma sparse_candidates_iff:
  "d \<in> set (sparse_candidates st sfm_dir) \<longleftrightarrow>
     is_dir st sfm_dir \<and> strict_prefix sfm_dir d \<and> is_dir st d \<and> has_model st d"
  using is_dir_listed[of st d] by (auto simp: sparse_candidates_def rglob_def)

lemma sparse_candidates_split:
  "sparse_candidates st sfm_dir =
     filter (has_model st) (filter (is_dir st) (rglob st sfm_dir Star))"
  by (simp add: sparse_candidates_def conj_commute)

lemmas eval_fs = lookup_def is_dir_def exists_def parent_def name_def

lemma lower_names:
  "lower ''cameras.bin'' = ''cameras.bin''"
  "lower ''images.bin'' = ''images.bin''"
  "lower ''points3D.bin'' = ''points3d.bin''"
  "lower ''models'' = ''models''"
  "lower ''1'' = ''1''"
  "lower ''a'' = ''a''"
  "lower ''b'' = ''b''"
  "lower ''p'' = ''p''"
  "lower ''q'' = ''q''"
  "lower ''r'' = ''r''"
  "lower ''s'' = ''s''"
  by code_simp+

text \<open>
  Claim C8. Among the directories that hold a complete model, \<^verbatim>\<open>locate_sparse_dir\<close> is to
  return one with the fewest path components. In \<^term>\<open>nested_example\<close> both \<^verbatim>\<open>/w/sfm\<close>
  and \<^verbatim>\<open>/w/sfm/models/1\<close> hold a complete binary model. The search in \<^verbatim>\<open>/w/sfm\<close>
  returns \<^verbatim>\<open>/w/sfm/models/1\<close>, which has more path components than \<^verbatim>\<open>/w/sfm\<close>: the
  search directory is tested with the same three file sets, but only after the list of
  candidates below it has turned out empty. The search in \<^verbatim>\<open>/w\<close>, which
  \<^verbatim>\<open>finalize_to_colmap_layout\<close> makes when the first one finds nothing, ranks \<^verbatim>\<open>/w/sfm\<close>
  first on the same tree.
\<close>

theorem locate_sparse_dir_nested_over_root:
  "is_dir nested_example [''w'', ''sfm''] \<and> has_model nested_example [''w'', ''sfm''] \<and>
   is_dir nested_example [''w'', ''sfm'', ''models'', ''1''] \<and>
   has_model nested_example [''w'', ''sfm'', ''models'', ''1''] \<and>
   locate_sparse_dir nested_example [''w'', ''sfm''] = Some [''w'', ''sfm'', ''models'', ''1''] \<and>
   length (parts [''w'', ''sfm'']) < length (parts [''w'', ''sfm'', ''models'', ''1'']) \<and>
   locate_sparse_dir nested_example [''w''] = Some [''w'', ''sfm'']"
proof -
  have d: "is_dir nested_example [''w'', ''sfm'']"
    "is_dir nested_example [''w'', ''sfm'', ''models'', ''1'']"
    by (simp_all add: nested_example_def eval_fs)
  have g0: "glob nested_example [''w'', ''sfm''] Star =
      [[''w'', ''sfm'', ''cameras.bin''], [''w'', ''sfm'', ''images.bin''],
       [''w'', ''sfm'', ''points3D.bin''], [''w'', ''sfm'', ''models'']]"
    by (simp add: glob_def nested_example_def eval_fs)
  have g1: "glob nested_example [''w'', ''sfm'', ''models''] Star =
      [[''w'', ''sfm'', ''models'', ''1'']]"
    by (simp add: glob_def nested_example_def eval_fs)
  have g2: "glob nested_example [''w'', ''sfm'', ''models'', ''1''] Star =
      [[''w'', ''sfm'', ''models'', ''1'', ''cameras.bin''],
       [''w'', ''sfm'', ''models'', ''1'', ''images.bin''],
       [''w'', ''sfm'', ''models'', ''1'', ''points3D.bin'']]"
    by (simp add: glob_def nested_example_def eval_fs)
  have h0: "has_model nested_example [''w'', ''sfm'']"
    by (simp add: has_model_def g0 name_def lower_names)
  have h1: "\<not> has_model nested_example [''w'', ''sfm'', ''models'']"
    by (simp add: has_model_def g1 name_def lower_names)
  have h2: "has_model nested_example [''w'', ''sfm'', ''models'', ''1'']"
    by (simp add: has_model_def g2 name_def lower_names)
  have r: "filter (is_dir nested_example) (rglob nested_example [''w'', ''sfm''] Star) =
      [[''w'', ''sfm'', ''models''], [''w'', ''sfm'', ''models'', ''1'']]"
    by (simp add: rglob_def nested_example_def eval_fs)
  have c: "sparse_candidates nested_example [''w'', ''sfm''] =
      [[''w'', ''sfm'', ''models'', ''1'']]"
    by (simp add: sparse_candidates_split r h1 h2)
  have r': "filter (is_dir nested_example) (rglob nested_example [''w''] Star) =
      [[''w'', ''sfm''], [''w'', ''sfm'', ''models''], [''w'', ''sfm'', ''models'', ''1'']]"
    by (simp add: rglob_def nested_example_def eval_fs)
  have c': "sparse_candidates nested_example [''w''] =
      [[''w'', ''sfm''], [''w'', ''sfm'', ''models'', ''1'']]"
    by (simp add: sparse_candidates_split r' h0 h1 h2)
  show ?thesis
    by (simp add: d h0 h2 locate_sparse_dir_def c c' parts_def)
qed

text \<open>
  Among the directories below the search directory the ranking is by the number of path
  components: when one of them holds a model file set, the result is one of them, and none
  of them has fewer path components.
\<close>

lemma locate_sparse_dir_below:
  assumes "sparse_candidates st sfm_dir \<noteq> []"
  shows "\<exists>d. locate_sparse_dir st sfm_dir = Some d \<and> d \<in> set (sparse_candidates st sfm_dir) \<and>
           (\<forall>d'\<in>set (sparse_candidates st sfm_dir). length (parts d) \<le> length (parts d'))"
  using assms hd_sort_key_least[of "sparse_candidates st sfm_dir" "\<lambda>p. length (parts p)"]
  by (simp add: locate_sparse_dir_def Let_def)

text \<open>
  In \<^term>\<open>depth_example\<close> the models lie two and four levels below \<^verbatim>\<open>/w/sfm\<close>, and
  \<^verbatim>\<open>/w/sfm\<close> holds none itself: the directory two levels down is selected.
\<close>

lemma locate_sparse_dir_depth_example:
  "sparse_candidates depth_example [''w'', ''sfm''] =
     [[''w'', ''sfm'', ''p'', ''q'', ''r'', ''s''], [''w'', ''sfm'', ''a'', ''b'']] \<and>
   locate_sparse_dir depth_example [''w'', ''sfm''] = Some [''w'', ''sfm'', ''a'', ''b'']"
proof -
  have gs: "glob depth_example [''w'', ''sfm'', ''p''] Star = [[''w'', ''sfm'', ''p'', ''q'']]"
    "glob depth_example [''w'', ''sfm'', ''p'', ''q''] Star = [[''w'', ''sfm'', ''p'', ''q'', ''r'']]"
    "glob depth_example [''w'', ''sfm'', ''p'', ''q'', ''r''] Star =
       [[''w'', ''sfm'', ''p'', ''q'', ''r'', ''s'']]"
    "glob depth_example [''w'', ''sfm'', ''p'', ''q'', ''r'', ''s''] Star =
       [[''w'', ''sfm'', ''p'', ''q'', ''r'', ''s'', ''cameras.bin''],
        [''w'', ''sfm'', ''p'', ''q'', ''r'', ''s'', ''images.bin''],
        [''w'', ''sfm'', ''p'', ''q'', ''r'', ''s'', ''points3D.bin'']]"
    "glob depth_example [''w'', ''sfm'', ''a''] Star = [[''w'', ''sfm'', ''a'', ''b'']]"
    "glob depth_example [''w'', ''sfm'', ''a'', ''b''] Star =
       [[''w'', ''sfm'', ''a'', ''b'', ''cameras.bin''],
        [''w'', ''sfm'', ''a'', ''b'', ''images.bin''],
        [''w'', ''sfm'', ''a'', ''b'', ''points3D.bin'']]"
    by (simp_all add: glob_def depth_example_def eval_fs)
  have hs: "\<not> has_model depth_example [''w'', ''sfm'', ''p'']"
    "\<not> has_model depth_example [''w'', ''sfm'', ''p'', ''q'']"
    "\<not> has_model depth_example [''w'', ''sfm'', ''p'', ''q'', ''r'']"
    "has_model depth_example [''w'', ''sfm'', ''p'', ''q'', ''r'', ''s'']"
    "\<not> has_model depth_example [''w'', ''sfm'', ''a'']"
    "has_model depth_example [''w'', ''sfm'', ''a'', ''b'']"
    by (simp_all add: has_model_def gs name_def lower_names)
  have r: "filter (is_dir depth_example) (rglob depth_example [''w'', ''sfm''] Star) =
      [[''w'', ''sfm'', ''p''], [''w'', ''sfm'', ''p'', ''q''], [''w'', ''sfm'', ''p'', ''q'', ''r''],
       [''w'', ''sfm'', ''p'', ''q'', ''r'', ''s''], [''w'', ''sfm'', ''a''],
       [''w'', ''sfm'', ''a'', ''b'']]"
    by (simp add: rglob_def depth_example_def eval_fs)
  have c: "sparse_candidates depth_example [''w'', ''sfm''] =
      [[''w'', ''sfm'', ''p'', ''q'', ''r'', ''s''], [''w'', ''sfm'', ''a'', ''b'']]"
    by (simp add: sparse_candidates_split r hs)
  from locate_sparse_dir_below[of depth_example "[''w'', ''sfm'']"] c obtain d where d: "locate_sparse_dir depth_example [''w'', ''sfm''] = Some d"
    "d = [''w'', ''sfm'', ''p'', ''q'', ''r'', ''s''] \<or> d = [''w'', ''sfm'', ''a'', ''b'']"
    "length (parts d) \<le> length (parts [''w'', ''sfm'', ''a'', ''b''])"
    by auto
  then have "locate_sparse_dir depth_example [''w'', ''sfm''] = Some [''w'', ''sfm'', ''a'', ''b'']"
    by (auto simp: parts_def)
  with c show ?thesis by simp
qed

section \<open>Deduplication of the reconstruction directory\<close>

lemma is_file_log [simp]: "is_file (log e st) p = is_file st p"
  by (simp add: is_file_def)

lemma dedup_body_cases:
  "dedup_body HB x st =
     (if stem_of (name x) \<in> HB
      then if is_file st x
           then (Inr (), (log (Unlink x) st)\<lparr>nodes := AList.delete x (nodes st)\<rparr>)
           else (Inr (), log (Unlink x) st)
      else (Inr (), st))"
  by (auto simp: dedup_body_def except_Exception_def unlink_def return_def Let_def is_file_def
      split: option.splits node.splits)

lemma dedup_loop:
  "\<exists>st'. for_each ts (dedup_body HB) st = (Inr (), st') \<and>
     (\<forall>q. lookup st' q =
        (if q \<in> set ts \<and> stem_of (name q) \<in> HB \<and> is_file st q then None else lookup st q)) \<and>
     map fst (nodes st') =
       filter (\<lambda>q. \<not> (q \<in> set ts \<and> stem_of (name q) \<in> HB \<and> is_file st q)) (map fst (nodes st))"
proof (induction ts arbitrary: st)
  case Nil
  show ?case by simp
next
  case (Cons x xs)
  have "fst (dedup_body HB x st) = Inr ()"
    by (simp add: dedup_body_cases)
  then obtain s1 where s1: "dedup_body HB x st = (Inr (), s1)"
    by (cases "dedup_body HB x st") auto
  from Cons.IH[of s1] obtain st' where
    run: "for_each xs (dedup_body HB) s1 = (Inr (), st')"
    and lk: "\<And>q. lookup st' q =
        (if q \<in> set xs \<and> stem_of (name q) \<in> HB \<and> is_file s1 q then None else lookup s1 q)"
    and ks: "map fst (nodes st') =
       filter (\<lambda>q. \<not> (q \<in> set xs \<and> stem_of (name q) \<in> HB \<and> is_file s1 q)) (map fst (nodes s1))"
    by blast
  have all: "for_each (x # xs) (dedup_body HB) st = (Inr (), st')"
    by (simp add: s1 run)
  show ?case
  proof (cases "stem_of (name x) \<in> HB \<and> is_file st x")
    case True
    with s1 have e: "s1 = (log (Unlink x) st)\<lparr>nodes := AList.delete x (nodes st)\<rparr>"
      by (simp add: dedup_body_cases)
    have l1: "lookup s1 q = (if q = x then None else lookup st q)" for q
      by (simp add: e fs_simps)
    have f1: "is_file s1 q = (q \<noteq> x \<and> is_file st q)" for q
      by (simp add: is_file_def l1)
    have k1: "map fst (nodes s1) = filter (\<lambda>q. q \<noteq> x) (map fst (nodes st))"
      by (simp add: e delete_keys removeAll_filter_not_eq) metis
    show ?thesis
      using True by (intro exI[of _ st'] conjI all) (auto simp: lk l1 f1 ks k1 intro!: filter_cong)
  next
    case False
    with s1 have e: "s1 = st \<or> s1 = log (Unlink x) st"
      by (auto simp: dedup_body_cases split: if_splits)
    then have l1: "lookup s1 q = lookup st q" and f1: "is_file s1 q = is_file st q"
      and k1: "map fst (nodes s1) = map fst (nodes st)" for q
      by auto
    show ?thesis
      using False by (intro exI[of _ st'] conjI all) (auto simp: lk l1 f1 ks k1 intro!: filter_cong)
  qed
qed


lemma dedup_sparse_zero_effect:
  "\<exists>st'. dedup_sparse_zero sparse0 st = (Inr (), st') \<and>
     (\<forall>q. lookup st' q =
        (if q \<in> set (glob st sparse0 (StarExt ''.txt'')) \<and>
            (\<exists>b\<in>set (glob st sparse0 (StarExt ''.bin'')). stem_of (name q) = stem_of (name b)) \<and>
            is_file st q
         then None else lookup st q)) \<and>
     no_text_duplicates st' sparse0"
proof (cases "exists st sparse0")
  case False
  then have "glob st sparse0 pat = []" for pat
    by (simp add: glob_def is_dir_def exists_def)
  with False show ?thesis
    by (simp add: dedup_sparse_zero_def return_def no_text_duplicates_def)
next
  case True
  define HB where "HB = set (map (\<lambda>p. stem_of (name p)) (glob st sparse0 (StarExt ''.bin'')))"
  define ts where "ts = glob st sparse0 (StarExt ''.txt'')"
  define del where "del = (\<lambda>q. q \<in> set ts \<and> stem_of (name q) \<in> HB \<and> is_file st q)"
  from dedup_loop[of ts HB st] obtain st' where
    run: "for_each ts (dedup_body HB) st = (Inr (), st')"
    and lk: "\<And>q. lookup st' q = (if del q then None else lookup st q)"
    and ks: "map fst (nodes st') = filter (\<lambda>q. \<not> del q) (map fst (nodes st))"
    unfolding del_def by blast
  have res: "dedup_sparse_zero sparse0 st = (Inr (), st')"
    using True run by (simp add: dedup_sparse_zero_def HB_def ts_def)
  have hb: "stem_of (name q) \<in> HB \<longleftrightarrow>
      (\<exists>b\<in>set (glob st sparse0 (StarExt ''.bin'')). stem_of (name q) = stem_of (name b))" for q
    by (auto simp: HB_def)
  have nd: "\<not> del sparse0" if "is_dir st sparse0"
    using that by (auto simp: del_def is_dir_def is_file_def split: option.splits node.splits)
  have dir: "is_dir st' sparse0 \<longleftrightarrow> is_dir st sparse0"
  proof (cases "is_dir st sparse0")
    case True
    with nd lk[of sparse0] show ?thesis by (simp add: is_dir_def)
  next
    case False
    then have "ts = []" by (simp add: ts_def glob_def)
    then have "\<not> del q" for q by (simp add: del_def)
    with lk show ?thesis by (simp add: is_dir_def)
  qed
  have gl: "glob st' sparse0 pat = filter (\<lambda>q. \<not> del q) (glob st sparse0 pat)" for pat
    by (auto simp: glob_def dir ks intro!: filter_cong)
  have inv: "no_text_duplicates st' sparse0"
    unfolding no_text_duplicates_def
  proof (intro ballI impI)
    fix t b
    assume t: "t \<in> set (glob st' sparse0 (StarExt ''.txt''))"
      and b: "b \<in> set (glob st' sparse0 (StarExt ''.bin''))"
      and eq: "stem_of (name t) = stem_of (name b)"
    from t have t0: "t \<in> set ts" and nt: "\<not> del t" by (auto simp: gl ts_def)
    from b have "b \<in> set (glob st sparse0 (StarExt ''.bin''))" by (simp add: gl)
    with eq have "stem_of (name t) \<in> HB" by (auto simp: hb)
    with t0 nt have "\<not> is_file st t" by (simp add: del_def)
    with lk[of t] nt show "\<not> is_file st' t" by (simp add: is_file_def)
  qed
  show ?thesis
    using res lk inv by (auto simp: del_def hb ts_def)
qed


text \<open>
  Claim C6. \<^verbatim>\<open>dedup_sparse_zero\<close> always returns; it removes exactly the regular
  \<^verbatim>\<open>*.txt\<close> files of the directory whose stem is the stem of one of its \<^verbatim>\<open>*.bin\<close>
  entries and leaves every other path as it was, so that afterwards no stem is present
  both as a \<^verbatim>\<open>*.bin\<close> entry and as a regular \<^verbatim>\<open>*.txt\<close> file. When
  \<^verbatim>\<open>finalize_to_colmap_layout\<close> returns and a reconstruction directory was found after the
  database step, this holds of \<^verbatim>\<open>sparse/0\<close> in the final state; when none was found,
  the final state is the state after the database step.
\<close>
theorem dedup_keeps_binary_only:
  "(\<exists>st'. dedup_sparse_zero sparse0 st = (Inr (), st') \<and>
      (\<forall>q. lookup st' q =
         (if q \<in> set (glob st sparse0 (StarExt ''.txt'')) \<and>
             (\<exists>b\<in>set (glob st sparse0 (StarExt ''.bin'')). stem_of (name q) = stem_of (name b)) \<and>
             is_file st q
          then None else lookup st q)) \<and>
      no_text_duplicates st' sparse0) \<and>
   (\<forall>st'. finalize_to_colmap_layout out work st0 = (Inr (), st') \<longrightarrow>
      (\<exists>sm. move_newest_database out work st0 = (Inr (), sm) \<and>
           (sparse_source sm work = None \<and> st' = sm \<or>
            sparse_source sm work \<noteq> None \<and> no_text_duplicates st' (out @ [''sparse'', ''0'']))))"
proof (intro conjI allI impI)
  show "\<exists>st'. dedup_sparse_zero sparse0 st = (Inr (), st') \<and>
      (\<forall>q. lookup st' q =
         (if q \<in> set (glob st sparse0 (StarExt ''.txt'')) \<and>
             (\<exists>b\<in>set (glob st sparse0 (StarExt ''.bin'')). stem_of (name q) = stem_of (name b)) \<and>
             is_file st q
          then None else lookup st q)) \<and>
      no_text_duplicates st' sparse0"
    by (rule dedup_sparse_zero_effect)
next
  fix st'
  assume fin: "finalize_to_colmap_layout out work st0 = (Inr (), st')"
  then obtain sm where db: "move_newest_database out work st0 = (Inr (), sm)"
    and sp: "move_sparse_model out work sm = (Inr (), st')"
    by (auto simp: finalize_to_colmap_layout_def bind_def split: prod.splits sum.splits)
  show "\<exists>sm. move_newest_database out work st0 = (Inr (), sm) \<and>
           (sparse_source sm work = None \<and> st' = sm \<or>
            sparse_source sm work \<noteq> None \<and> no_text_duplicates st' (out @ [''sparse'', ''0'']))"
  proof (cases "sparse_source sm work")
    case None
    with sp have "st' = sm" by (simp add: move_sparse_model_def return_def)
    with db None show ?thesis by blast
  next
    case (Some d)
    with sp obtain s2 where "dedup_sparse_zero (out @ [''sparse'', ''0'']) s2 = (Inr (), st')"
      by (auto simp: move_sparse_model_def bind_def Let_def split: prod.splits sum.splits if_splits)
    with dedup_sparse_zero_effect[of "out @ [''sparse'', ''0'']" s2]
    have "no_text_duplicates st' (out @ [''sparse'', ''0''])" by auto
    with db Some show ?thesis by auto
  qed
qed


lemma consolidate_example_database:
  "move_newest_database [''o''] [''o'', ''hloc_work''] consolidate_example =
     (Inr (), consolidate_example)"
  by (simp add: move_newest_database_def rglob_def consolidate_example_def eval_fs return_def)

lemma consolidate_example_source:
  "sparse_source consolidate_example [''o'', ''hloc_work''] = Some [''o'', ''hloc_work'', ''sfm'']"
proof -
  have r: "filter (is_dir consolidate_example)
      (rglob consolidate_example [''o'', ''hloc_work'', ''sfm''] Star) = []"
    by (simp add: rglob_def consolidate_example_def eval_fs)
  have g: "glob consolidate_example [''o'', ''hloc_work'', ''sfm''] Star =
      [[''o'', ''hloc_work'', ''sfm'', ''cameras.bin''],
       [''o'', ''hloc_work'', ''sfm'', ''images.bin''],
       [''o'', ''hloc_work'', ''sfm'', ''points3D.bin''],
       [''o'', ''hloc_work'', ''sfm'', ''cameras.txt'']]"
    by (simp add: glob_def consolidate_example_def eval_fs)
  have l: "lower ''cameras.txt'' = ''cameras.txt''" by code_simp
  have h: "has_model consolidate_example [''o'', ''hloc_work'', ''sfm'']"
    by (simp add: has_model_def g name_def lower_names l)
  show ?thesis
    by (simp add: sparse_source_def locate_sparse_dir_def sparse_candidates_split r h)
qed

lemma consolidate_example_sparse:
  "move_sparse_model [''o''] [''o'', ''hloc_work''] consolidate_example =
     (Inr (), consolidated_example)"
  apply (simp add: move_sparse_model_def consolidate_example_source)
  apply (simp add: consolidate_example_def bind_def mkdir_parents_def mkdirs.simps log_def
        exists_def lookup_def rglob_def is_dir_def name_def move_file_def parent_def shutil_move_def
        return_def dedup_sparse_zero_def glob_def dedup_body_def stem_of_def
        except_Exception_def unlink_def fresh_dir_size_def Let_def suffix_to_prefix
        consolidated_example_def)
  done

theorem dedup_keeps_binary_only_witness:
  "(\<exists>st'. dedup_sparse_zero [''s''] dedup_example = (Inr (), st') \<and>
      lookup st' [''s'', ''cameras.txt''] = None \<and>
      lookup st' [''s'', ''cameras.bin''] = Some (File ''cb'' 1) \<and>
      lookup st' [''s'', ''notes.txt''] = Some (File ''n'' 1) \<and>
      lookup st' [''s'', ''images.txt''] = Some (Dir 4096 0) \<and>
      no_text_duplicates st' [''s'']) \<and>
   finalize_to_colmap_layout [''o''] [''o'', ''hloc_work''] consolidate_example =
     (Inr (), consolidated_example) \<and>
   no_text_duplicates consolidated_example [''o'', ''sparse'', ''0''] \<and>
   lookup consolidated_example [''o'', ''sparse'', ''0'', ''cameras.bin''] = Some (File ''cb'' 5) \<and>
   lookup consolidated_example [''o'', ''sparse'', ''0'', ''cameras.txt''] = None"
proof -
  note T = dedup_keeps_binary_only[of "[''s'']" dedup_example "[''o'']" "[''o'', ''hloc_work'']"
      consolidate_example]
  have gt: "glob dedup_example [''s''] (StarExt ''.txt'') =
      [[''s'', ''cameras.txt''], [''s'', ''notes.txt''], [''s'', ''images.txt'']]"
    by (simp add: glob_def dedup_example_def eval_fs suffix_to_prefix)
  have gb: "glob dedup_example [''s''] (StarExt ''.bin'') =
      [[''s'', ''cameras.bin''], [''s'', ''images.bin'']]"
    by (simp add: glob_def dedup_example_def eval_fs suffix_to_prefix)
  have st: "stem_of ''cameras.txt'' = ''cameras''" "stem_of ''cameras.bin'' = ''cameras''"
    "stem_of ''notes.txt'' = ''notes''" "stem_of ''images.bin'' = ''images''"
    "stem_of ''images.txt'' = ''images''"
    by (simp_all add: stem_of_def)
  have fl: "is_file dedup_example [''s'', ''cameras.txt'']"
    "\<not> is_file dedup_example [''s'', ''images.txt'']"
    by (simp_all add: is_file_def lookup_def dedup_example_def)
  have lk: "lookup dedup_example [''s'', ''cameras.bin''] = Some (File ''cb'' 1)"
    "lookup dedup_example [''s'', ''notes.txt''] = Some (File ''n'' 1)"
    "lookup dedup_example [''s'', ''images.txt''] = Some (Dir 4096 0)"
    by (simp_all add: lookup_def dedup_example_def)
  from T obtain st' where run: "dedup_sparse_zero [''s''] dedup_example = (Inr (), st')"
    and eff: "\<And>q. lookup st' q =
         (if q \<in> set (glob dedup_example [''s''] (StarExt ''.txt'')) \<and>
             (\<exists>b\<in>set (glob dedup_example [''s''] (StarExt ''.bin'')).
                stem_of (name q) = stem_of (name b)) \<and>
             is_file dedup_example q
          then None else lookup dedup_example q)"
    and inv: "no_text_duplicates st' [''s'']"
    by blast
  have first: "\<exists>st'. dedup_sparse_zero [''s''] dedup_example = (Inr (), st') \<and>
      lookup st' [''s'', ''cameras.txt''] = None \<and>
      lookup st' [''s'', ''cameras.bin''] = Some (File ''cb'' 1) \<and>
      lookup st' [''s'', ''notes.txt''] = Some (File ''n'' 1) \<and>
      lookup st' [''s'', ''images.txt''] = Some (Dir 4096 0) \<and>
      no_text_duplicates st' [''s'']"
    using run inv eff[of "[''s'', ''cameras.txt'']"] eff[of "[''s'', ''cameras.bin'']"]
      eff[of "[''s'', ''notes.txt'']"] eff[of "[''s'', ''images.txt'']"]
    by (simp add: gt gb name_def st fl lk)
  have fin: "finalize_to_colmap_layout [''o''] [''o'', ''hloc_work''] consolidate_example =
      (Inr (), consolidated_example)"
    by (simp add: finalize_to_colmap_layout_def bind_def consolidate_example_database
        consolidate_example_sparse)
  with T consolidate_example_database consolidate_example_source
  have "no_text_duplicates consolidated_example [''o'', ''sparse'', ''0'']"
    by auto
  moreover have "lookup consolidated_example [''o'', ''sparse'', ''0'', ''cameras.bin''] =
      Some (File ''cb'' 5)"
    "lookup consolidated_example [''o'', ''sparse'', ''0'', ''cameras.txt''] = None"
    by (simp_all add: lookup_def consolidated_example_def)
  ultimately show ?thesis using first fin by blast
qed

section \<open>The match file locator\<close>

lemma last_sort_greatest:
  fixes xs :: "('a :: linorder) list"
  assumes "xs \<noteq> []"
  shows "last (sort xs) \<in> set xs \<and> (\<forall>y\<in>set xs. y \<le> last (sort xs))"
proof -
  from assms have ne: "sort xs \<noteq> []" by (metis length_sort length_0_conv)
  then obtain zs z where ys: "sort xs = zs @ [z]" by (cases "sort xs" rule: rev_cases) auto
  have "sorted (sort xs)" by simp
  with ys have "\<forall>y\<in>set zs. y \<le> z" by (simp add: sorted_append)
  moreover have "set (zs @ [z]) = set xs" using ys by (metis set_sort)
  ultimately show ?thesis unfolding ys by auto
qed

lemma in_set_map_filter:
  "y \<in> set (List.map_filter f xs) \<longleftrightarrow> (\<exists>x\<in>set xs. f x = Some y)"
  by (induction xs) (auto simp: List.map_filter_simps split: option.splits)

lemma rglob_iff:
  "q \<in> set (rglob st d pat) \<longleftrightarrow>
     is_dir st d \<and> q \<in> fst ` set (nodes st) \<and> strict_prefix d q \<and> matches pat (name q)"
  by (auto simp: rglob_def)

lemma lookup_listed: "lookup st q = Some n \<Longrightarrow> q \<in> fst ` set (nodes st)"
  by (auto simp: lookup_def dest!: map_of_SomeD intro: rev_image_eqI)

lemma recent_matches_iff:
  "(m, q) \<in> set (recent_matches st export_dir t0) \<longleftrightarrow>
     is_dir st export_dir \<and> strict_prefix export_dir q \<and> suffix ''.h5'' (name q) \<and>
     sublist ''match'' (lower (name q)) \<and>
     (\<exists>n. lookup st q = Some n \<and> m = mtime n \<and> t0 - 1 \<le> m)"
proof -
  have pick: "(case lookup st x of None \<Rightarrow> None
        | Some n \<Rightarrow> if sublist ''match'' (lower (name x)) \<and> mtime n \<ge> t0 - 1
                    then Some (mtime n, x) else None) = Some (m, q) \<longleftrightarrow>
      x = q \<and> sublist ''match'' (lower (name q)) \<and>
      (\<exists>n. lookup st q = Some n \<and> m = mtime n \<and> t0 - 1 \<le> m)" for x
    by (auto split: option.splits if_splits)
  have "(m, q) \<in> set (recent_matches st export_dir t0) \<longleftrightarrow>
      q \<in> set (rglob st export_dir (StarExt ''.h5'')) \<and> sublist ''match'' (lower (name q)) \<and>
      (\<exists>n. lookup st q = Some n \<and> m = mtime n \<and> t0 - 1 \<le> m)"
    unfolding recent_matches_def in_set_map_filter pick by blast
  also have "\<dots> \<longleftrightarrow> is_dir st export_dir \<and> strict_prefix export_dir q \<and>
      suffix ''.h5'' (name q) \<and> sublist ''match'' (lower (name q)) \<and>
      (\<exists>n. lookup st q = Some n \<and> m = mtime n \<and> t0 - 1 \<le> m)"
    unfolding rglob_iff using lookup_listed[of st q] by auto
  finally show ?thesis .
qed

text \<open>
  Claim C7 says that the newest of all files whose name contains \<^verbatim>\<open>match\<close> is returned.
  The locator scans \<^verbatim>\<open>*.h5\<close> only: in \<^term>\<open>keyword_example\<close> the newest such file is
  \<^verbatim>\<open>matches-log.txt\<close>, inside the time window, and \<^verbatim>\<open>matches.h5\<close> is returned.
\<close>

theorem find_matches_file_h5_counterexample:
  "\<not> exists keyword_example [''w'', ''matches-superpoint-lightglue.h5''] \<and>
   lookup keyword_example [''w'', ''matches-log.txt''] = Some (File ''m2'' 105) \<and>
   sublist ''match'' ''matches-log.txt'' \<and> (100::real) - 1 \<le> 105 \<and>
   find_matches_file [''w''] ''matches-superpoint-lightglue'' 100 keyword_example =
     (Inr [''w'', ''matches.h5''], keyword_example) \<and>
   mtime_of keyword_example [''w'', ''matches.h5''] <
     mtime_of keyword_example [''w'', ''matches-log.txt'']"
proof -
  have l: "lower ''matches.h5'' = ''matches.h5''" by code_simp
  have r: "rglob keyword_example [''w''] (StarExt ''.h5'') = [[''w'', ''matches.h5'']]"
    by (simp add: rglob_def keyword_example_def eval_fs suffix_to_prefix)
  have s: "sublist ''match'' ''matches.h5''" "sublist ''match'' ''matches-log.txt''"
    by (simp_all add: sublist_code)
  have lk: "lookup keyword_example [''w'', ''matches.h5''] = Some (File ''m1'' 100)"
    by (simp add: keyword_example_def lookup_def)
  have rm: "recent_matches keyword_example [''w''] 100 = [(100, [''w'', ''matches.h5''])]"
    by (simp add: recent_matches_def r List.map_filter_simps name_def l s lk)
  have e: "\<not> exists keyword_example [''w'', ''matches-superpoint-lightglue.h5'']"
    by (simp add: exists_def lookup_def keyword_example_def)
  have f: "find_matches_file [''w''] ''matches-superpoint-lightglue'' 100 keyword_example =
     (Inr [''w'', ''matches.h5''], keyword_example)"
    using e by (simp add: find_matches_file_def rm return_def)
  show ?thesis
    using e f s by (simp add: mtime_of_def lookup_def keyword_example_def)
qed

text \<open>
  Claim C7 as amended. When no entry with the requested name exists, and some \<^verbatim>\<open>*.h5\<close>
  entry below the export directory has a lower-cased name that contains \<^verbatim>\<open>match\<close> and a
  modification time of at least \<^verbatim>\<open>t0 - 1\<close>, the locator returns such an entry, and no
  other such entry has been modified later.
\<close>

theorem find_matches_file_recent:
  assumes "\<not> exists st (export_dir @ [preferred_basename @ ''.h5''])"
    and "recent_matches st export_dir t0 \<noteq> []"
  shows "(\<forall>m q. (m, q) \<in> set (recent_matches st export_dir t0) \<longleftrightarrow>
            is_dir st export_dir \<and> strict_prefix export_dir q \<and> suffix ''.h5'' (name q) \<and>
            sublist ''match'' (lower (name q)) \<and>
            (\<exists>n. lookup st q = Some n \<and> m = mtime n \<and> t0 - 1 \<le> m)) \<and>
         (\<exists>p. find_matches_file export_dir preferred_basename t0 st = (Inr p, st) \<and>
              (mtime_of st p, p) \<in> set (recent_matches st export_dir t0) \<and>
              (\<forall>(m, q)\<in>set (recent_matches st export_dir t0). m \<le> mtime_of st p))"
proof -
  define best where "best = last (sort (recent_matches st export_dir t0))"
  from last_sort_greatest[OF assms(2)]
  have mem: "best \<in> set (recent_matches st export_dir t0)"
    and top: "\<And>y. y \<in> set (recent_matches st export_dir t0) \<Longrightarrow> y \<le> best"
    by (auto simp: best_def)
  from mem have "(fst best, snd best) \<in> set (recent_matches st export_dir t0)" by simp
  then have mt: "mtime_of st (snd best) = fst best"
    unfolding recent_matches_iff by (auto simp: mtime_of_def)
  have res: "find_matches_file export_dir preferred_basename t0 st = (Inr (snd best), st)"
    using assms by (simp add: find_matches_file_def return_def best_def)
  have le: "m \<le> fst best" if "(m, q) \<in> set (recent_matches st export_dir t0)" for m q
    using top[OF that] by (auto simp: less_eq_prod_def)
  have "\<exists>p. find_matches_file export_dir preferred_basename t0 st = (Inr p, st) \<and>
              (mtime_of st p, p) \<in> set (recent_matches st export_dir t0) \<and>
              (\<forall>(m, q)\<in>set (recent_matches st export_dir t0). m \<le> mtime_of st p)"
    using res mem le by (intro exI[of _ "snd best"]) (auto simp: mt)
  then show ?thesis
    using recent_matches_iff[of _ _ st export_dir t0] by blast
qed

text \<open>
  In \<^term>\<open>window_example\<close> the stage started at time 100; one file was modified at 97,
  before \<^verbatim>\<open>t0 - 2\<close>, the other at 99.75, after \<^verbatim>\<open>t0 - 0.5\<close>: the latter is returned.
\<close>

theorem find_matches_file_recent_witness:
  "recent_matches window_example [''w''] 100 = [(399 / 4, [''w'', ''Matches-new.h5''])] \<and>
   find_matches_file [''w''] ''matches-superpoint-lightglue'' 100 window_example =
     (Inr [''w'', ''Matches-new.h5''], window_example)"
proof -
  have l: "lower ''matches-old.h5'' = ''matches-old.h5''"
    "lower ''Matches-new.h5'' = ''matches-new.h5''" by code_simp+
  have r: "rglob window_example [''w''] (StarExt ''.h5'') =
      [[''w'', ''matches-old.h5''], [''w'', ''Matches-new.h5'']]"
    by (simp add: rglob_def window_example_def eval_fs suffix_to_prefix)
  have s: "sublist ''match'' ''matches-old.h5''" "sublist ''match'' ''matches-new.h5''"
    by (simp_all add: sublist_code)
  have lk: "lookup window_example [''w'', ''matches-old.h5''] = Some (File ''m1'' 97)"
    "lookup window_example [''w'', ''Matches-new.h5''] = Some (File ''m2'' (399 / 4))"
    by (simp_all add: window_example_def lookup_def)
  have rm: "recent_matches window_example [''w''] 100 = [(399 / 4, [''w'', ''Matches-new.h5''])]"
    by (simp add: recent_matches_def r List.map_filter_simps name_def l s lk)
  have e: "\<not> exists window_example ([''w''] @ [''matches-superpoint-lightglue'' @ ''.h5''])"
    by (simp add: exists_def lookup_def window_example_def)
  from find_matches_file_recent[OF e, of 100] rm
  obtain p where "find_matches_file [''w''] ''matches-superpoint-lightglue'' 100 window_example =
      (Inr p, window_example)" and "(mtime_of window_example p, p) \<in> {(399 / 4, [''w'', ''Matches-new.h5''])}"
    by auto
  with rm show ?thesis by simp
qed

section \<open>The driver loop\<close>

lemma for_each_append:
  "for_each (xs @ ys) f st =
     (case for_each xs f st of
        (Inl e, s) \<Rightarrow> (Inl e, s)
      | (Inr u, s) \<Rightarrow> for_each ys f s)"
  by (induction xs arbitrary: st) (auto split: prod.splits sum.splits)

lemma lower_jpg: "lower ''.jpg'' = ''.jpg''"
  by code_simp

text \<open>
  Claim C1 says that after a failing project the later projects are still attempted.
  \<^verbatim>\<open>main\<close> calls \<^verbatim>\<open>run_sfm_for_project\<close> in a plain loop: in \<^term>\<open>two_projects\<close> the
  first project has no \<^verbatim>\<open>images\<close> directory and the second one is valid, and \<^verbatim>\<open>main\<close>
  raises with the state untouched, so nothing has been attempted for the second project.
\<close>

theorem main_first_failure_counterexample:
  "ensure_images_dir [''p2''] two_projects = (Inr [''p2'', ''images''], two_projects) \<and>
   main idle_env [[''p1''], [''p2'']] None 4096 two_projects =
     (Inl FileNotFoundError, two_projects)"
proof -
  have r: "rglob two_projects [''p2'', ''images''] Star = [[''p2'', ''images'', ''a.jpg'']]"
    by (simp add: rglob_def two_projects_def eval_fs)
  have i: "is_image [''p2'', ''images'', ''a.jpg'']"
    by (simp add: is_image_def name_def suffix_of_def lower_jpg IMG_EXTS_def)
  have d: "exists two_projects [''p2'', ''images'']" "is_dir two_projects [''p2'', ''images'']"
    "\<not> exists two_projects [''p1'', ''images'']"
    by (simp_all add: two_projects_def eval_fs)
  have "ensure_images_dir [''p2''] two_projects = (Inr [''p2'', ''images''], two_projects)"
    by (simp add: ensure_images_dir_def d r i return_def)
  moreover have "ensure_images_dir [''p1''] two_projects = (Inl FileNotFoundError, two_projects)"
    by (simp add: ensure_images_dir_def d raise_def)
  then have "main idle_env [[''p1''], [''p2'']] None 4096 two_projects =
     (Inl FileNotFoundError, two_projects)"
    by (simp add: main_def run_sfm_for_project_def bind_def)
  ultimately show ?thesis by simp
qed

text \<open>
  Claim C1 as amended. The projects are processed in the order of the list. When the runs
  of the projects before \<^verbatim>\<open>p\<close> have returned and the run of \<^verbatim>\<open>p\<close> raises, \<^verbatim>\<open>main\<close>
  raises the same exception from the same state, whatever projects follow: none of them
  is attempted.
\<close>

theorem main_stops_at_first_failure:
  assumes "main h ps output_root max_keypoints st = (Inr (), s1)"
    and "run_sfm_for_project h p output_root max_keypoints s1 = (Inl e, s2)"
  shows "main h (ps @ p # qs) output_root max_keypoints st = (Inl e, s2)"
  using assms by (simp add: main_def for_each_append)

theorem main_stops_at_first_failure_witness:
  "main idle_env [] None 4096 two_projects = (Inr (), two_projects) \<and>
   run_sfm_for_project idle_env [''p1''] None 4096 two_projects =
     (Inl FileNotFoundError, two_projects) \<and>
   main idle_env ([] @ [''p1''] # [[''p2'']]) None 4096 two_projects =
     (Inl FileNotFoundError, two_projects)"
proof -
  have a: "main idle_env [] None 4096 two_projects = (Inr (), two_projects)"
    by (simp add: main_def)
  have "\<not> exists two_projects [''p1'', ''images'']"
    by (simp add: two_projects_def eval_fs)
  then have "ensure_images_dir [''p1''] two_projects = (Inl FileNotFoundError, two_projects)"
    by (simp add: ensure_images_dir_def raise_def)
  then have b: "run_sfm_for_project idle_env [''p1''] None 4096 two_projects =
     (Inl FileNotFoundError, two_projects)"
    by (simp add: run_sfm_for_project_def bind_def)
  from main_stops_at_first_failure[OF a b, of "[[''p2'']]"] a b show ?thesis by simp
qed

section \<open>The adaptive stage invoker\<close>

lemma invoke_rejected:
  "rejects f b \<Longrightarrow> invoke nm f b st = (Inl TypeError, st\<lparr>trace := trace st @ [Invoke nm b]\<rparr>)"
  by (cases st) (simp add: rejects_def invoke_def)

lemma invoke_taken: "takes f c \<Longrightarrow> fst (invoke nm f c st) \<noteq> Inl TypeError"
  by (simp add: takes_def invoke_def split: prod.splits) (metis fst_conv)

lemma except_rejected:
  "rejects f b \<Longrightarrow>
   except_TypeError (invoke nm f b) m st = m (st\<lparr>trace := trace st @ [Invoke nm b]\<rparr>)"
  by (simp add: except_TypeError_def invoke_rejected)

lemma except_taken:
  "takes f c \<Longrightarrow> except_TypeError (invoke nm f c) m st = invoke nm f c st"
  using invoke_taken[of f c nm st]
  by (cases "invoke nm f c st") (auto simp: except_TypeError_def split: sum.splits error.splits)

lemma prefix_snoc3:
  "prefix (pre @ [c]) [x, y, z] \<longleftrightarrow>
     pre = [] \<and> c = x \<or> pre = [x] \<and> c = y \<or> pre = [x, y] \<and> c = z"
proof -
  have "length pre < 3 \<or> \<not> prefix (pre @ [c]) [x, y, z]"
    using prefix_length_le[of "pre @ [c]" "[x, y, z]"] by auto
  then consider "pre = []" | a where "pre = [a]" | a b where "pre = [a, b]"
    | "\<not> prefix (pre @ [c]) [x, y, z]" "3 \<le> length pre"
    by (cases pre; cases "tl pre"; cases "tl (tl pre)") auto
  then show ?thesis
  proof cases
    case 4
    then show ?thesis by auto
  qed auto
qed

lemma chain3:
  assumes "prefix (pre @ [c]) [x, y, z]" "\<forall>b\<in>set pre. rejects f b" "takes f c"
  shows "except_TypeError (invoke nm f x) (except_TypeError (invoke nm f y) (invoke nm f z)) st =
           invoke nm f c (st\<lparr>trace := trace st @ map (Invoke nm) pre\<rparr>)"
  using assms by (auto simp: prefix_snoc3 except_rejected except_taken)


lemma rejected_not_taken: "rejects f b \<Longrightarrow> takes f c \<Longrightarrow> b \<noteq> c"
  by (auto simp: rejects_def takes_def)

lemma chain3_distinct:
  assumes "prefix (pre @ [c]) [x, y, z]" "\<forall>b\<in>set pre. rejects f b" "takes f c" "x \<noteq> y"
  shows "distinct (pre @ [c])"
  using assms rejected_not_taken[of f _ c] by (auto simp: prefix_snoc3)

lemma call_pairs_exhaustive_chain:
  "call_pairs_exhaustive h images_dir output_pairs image_list_path =
     except_TypeError
       (invoke ''pairs_from_exhaustive'' (pairs_from_exhaustive h)
          (if ''image_dir'' \<in> set (params (pairs_from_exhaustive h))
           then kwargs [(''image_dir'', VPath images_dir), (''output'', VPath output_pairs)]
           else if ''image_list'' \<in> set (params (pairs_from_exhaustive h))
           then kwargs [(''image_list'', VPath image_list_path), (''output'', VPath output_pairs)]
           else if sublist ''list'' (if params (pairs_from_exhaustive h) \<noteq> []
                                     then hd (params (pairs_from_exhaustive h)) else ''image_dir'')
           then args [VPath image_list_path, VPath output_pairs]
           else args [VPath images_dir, VPath output_pairs]))
       (except_TypeError
          (invoke ''pairs_from_exhaustive'' (pairs_from_exhaustive h)
             (kwargs [(''image_list'', VPath image_list_path), (''output'', VPath output_pairs)]))
          (invoke ''pairs_from_exhaustive'' (pairs_from_exhaustive h)
             (args [VPath images_dir, VPath output_pairs])))"
  by (simp add: call_pairs_exhaustive_def Let_def)

lemma snd_find_matches_file: "snd (find_matches_file export_dir b t0 st) = st"
  by (simp add: find_matches_file_def Let_def return_def raise_def)

lemma find_matches_file_state: "find_matches_file export_dir b t0 st = (r, st') \<Longrightarrow> st' = st"
  using snd_find_matches_file[of export_dir b t0 st] by simp

lemma lookup_set_trace: "lookup (st\<lparr>trace := tr\<rparr>) p = lookup st p"
  by (simp add: lookup_def)

lemma call_match_features_after:
  assumes "try_match_features h (dict_get (match_confs h) ''lightglue'' default_matches_conf)
             pairs_path features_name export_dir st = m"
  shows "snd (call_match_features h pairs_path features_name export_dir st) = snd m \<and>
         (\<forall>e. fst m = Inl e \<longrightarrow>
              fst (call_match_features h pairs_path features_name export_dir st) = Inl e)"
proof (cases m)
  case (Pair r st')
  show ?thesis
  proof (cases r)
    case (Inl e)
    with Pair assms show ?thesis by (simp add: call_match_features_def Let_def bind_def)
  next
    case (Inr v)
    with Pair assms show ?thesis
      by (cases "dict_get (dict_get (match_confs h) ''lightglue'' default_matches_conf)
                   ''output'' (JStr ''matches-superpoint-lightglue'')")
         (auto simp: call_match_features_def Let_def bind_def raise_def return_def
            split: prod.splits sum.splits dest: find_matches_file_state)
  qed
qed


lemma call_extract_features_after:
  assumes cf: "cf = with_max_keypoints
                 (dict_get (extract_confs h) ''superpoint_aachen'' (default_feats_conf k)) k"
    and m: "except_TypeError
              (invoke ''extract_features'' (extract_features h)
                 (args [VConf cf, VPath images_dir, VPath export_dir]))
              (except_TypeError
                 (invoke ''extract_features'' (extract_features h)
                    (kwargs [(''conf'', VConf cf), (''image_dir'', VPath images_dir),
                             (''export_dir'', VPath export_dir)]))
                 (bind (\<lambda>st. if \<not> exists st (export_dir @ [''images.txt''])
                             then write_text (export_dir @ [''images.txt'']) [] st
                             else return () st)
                    (\<lambda>_. invoke ''extract_features'' (extract_features h)
                           (args [VConf cf, VPath (export_dir @ [''images.txt'']),
                                  VPath export_dir])))) st = m"
  shows "snd (call_extract_features h images_dir export_dir k st) = snd m \<and>
         (\<forall>e. fst m = Inl e \<longrightarrow>
              fst (call_extract_features h images_dir export_dir k st) = Inl e)"
proof (cases m)
  case (Pair r st')
  show ?thesis
  proof (cases r)
    case (Inl e)
    with Pair m show ?thesis
      unfolding cf by (simp add: call_extract_features_def Let_def bind_def)
  next
    case (Inr v)
    with Pair m show ?thesis
      unfolding cf
      by (simp add: call_extract_features_def Let_def bind_def raise_def return_def
          split: jval.splits)
  qed
qed

lemma write_text_fresh:
  assumes "\<not> exists st (d @ [n])" "is_dir st d"
  shows "write_text (d @ [n]) s st = (Inr (), snd (write_text (d @ [n]) s st))"
  using assms
  by (auto simp: write_text_def Let_def exists_def is_dir_def parent_def lookup_log
      split: option.splits node.splits)

lemma extract_chain:
  assumes p: "prefix (pre @ [c]) [x, y, z]" and r: "\<forall>b\<in>set pre. rejects f b" and t: "takes f c"
    and w: "length pre = 2 \<longrightarrow> exists st (d @ [n]) \<or> is_dir st d"
  shows "except_TypeError (invoke nm f x)
           (except_TypeError (invoke nm f y)
              (bind (\<lambda>st. if \<not> exists st (d @ [n]) then write_text (d @ [n]) [] st
                          else return () st)
                 (\<lambda>_. invoke nm f z))) st =
         invoke nm f c
           (if length pre = 2 \<and> \<not> exists st (d @ [n])
            then snd (write_text (d @ [n]) [] (st\<lparr>trace := trace st @ map (Invoke nm) pre\<rparr>))
            else st\<lparr>trace := trace st @ map (Invoke nm) pre\<rparr>)"
proof -
  have e: "exists (st\<lparr>trace := tr\<rparr>) q = exists st q" for tr q
    by (simp add: exists_def lookup_set_trace)
  have i: "is_dir (st\<lparr>trace := tr\<rparr>) q = is_dir st q" for tr q
    by (simp add: is_dir_def lookup_set_trace)
  from p consider "pre = []" "c = x" | "pre = [x]" "c = y" | "pre = [x, y]" "c = z"
    by (auto simp: prefix_snoc3)
  then show ?thesis
  proof cases
    case 1
    with t show ?thesis by (simp add: except_taken)
  next
    case 2
    with r t show ?thesis by (simp add: except_rejected except_taken)
  next
    case 3
    show ?thesis
    proof (cases "exists st (d @ [n])")
      case True
      with 3 r show ?thesis by (simp add: except_rejected bind_def return_def e)
    next
      case False
      with w 3 have "is_dir st d" by simp
      from write_text_fresh[of "st\<lparr>trace := trace st @ [Invoke nm x, Invoke nm y]\<rparr>" d n "[]"]
        False this
      obtain s' where "write_text (d @ [n]) [] (st\<lparr>trace := trace st @ [Invoke nm x, Invoke nm y]\<rparr>) =
          (Inr (), s')"
        by (simp add: e i)
      with 3 r False show ?thesis by (simp add: except_rejected bind_def e)
    qed
  qed
qed




section \<open>The image list\<close>

lemma join_last:
  "xs \<noteq> [] \<Longrightarrow> last xs \<noteq> [] \<Longrightarrow> join sep xs \<noteq> [] \<and> last (join sep xs) = last (last xs)"
  by (induction sep xs rule: join.induct) auto

lemma lower_char_newline: "lower_char (CHR 0x0A) = CHR 0x0A"
  by code_simp

lemma is_image_name:
  assumes "is_image p"
  shows "name p \<noteq> [] \<and> last (name p) \<noteq> CHR 0x0A"
proof -
  define n where "n = name p"
  from assms have ext: "lower (suffix_of n) \<in> set IMG_EXTS" by (simp add: is_image_def n_def)
  then have ne: "suffix_of n \<noteq> []" by (auto simp: IMG_EXTS_def lower_def)
  then obtain i where i: "suffix_of n = drop i n" "i < length n"
    by (auto simp: suffix_of_def split: option.splits if_splits)
  then have n: "n \<noteq> []" and l: "last n = last (suffix_of n)" by auto
  have "last (lower (suffix_of n)) = lower_char (last (suffix_of n))"
    using ne by (simp add: lower_def last_map)
  moreover from ext have "last (lower (suffix_of n)) \<noteq> CHR 0x0A"
    by (auto simp: IMG_EXTS_def)
  ultimately have "last n \<noteq> CHR 0x0A" using lower_char_newline l by auto
  with n show ?thesis by (simp add: n_def)
qed

lemma str_rel_last:
  assumes "strict_prefix d p" and "is_image p"
  shows "str_rel (relative_to p d) \<noteq> [] \<and> last (str_rel (relative_to p d)) \<noteq> CHR 0x0A"
proof -
  from assms(1) obtain zs where p: "p = d @ zs" "zs \<noteq> []" by (auto simp: strict_prefix_def prefix_def)
  then have r: "relative_to p d = zs" and nm: "name p = last zs" by (simp_all add: relative_to_def name_def)
  from is_image_name[OF assms(2)] nm have "last zs \<noteq> []" "last (last zs) \<noteq> CHR 0x0A" by auto
  with join_last[OF p(2), of "''/''"] show ?thesis by (simp add: r str_rel_def p(2))
qed

lemma image_rels_last:
  assumes "r \<in> set (image_rels st images_dir)"
  shows "r \<noteq> [] \<and> last r \<noteq> CHR 0x0A"
proof -
  from assms obtain p where "p \<in> set (rglob st images_dir Star)" "is_image p"
    "r = str_rel (relative_to p images_dir)"
    by (auto simp: image_rels_def)
  then show ?thesis using str_rel_last[of images_dir p] by (auto simp: rglob_iff)
qed

lemma make_image_list_file_written:
  assumes "make_image_list_file images_dir out_dir st = (Inr list_path, st')"
  shows "list_path = out_dir @ [''images.txt''] \<and>
         lookup st' list_path = Some (File (join newline (image_rels st images_dir)) (clock st))"
proof -
  define c where "c = join newline (image_rels st images_dir)"
  define lp where "lp = out_dir @ [''images.txt'']"
  from assms have b: "bind (write_text lp c) (\<lambda>_. return lp) st = (Inr list_path, st')"
    by (simp add: make_image_list_file_def c_def lp_def Let_def)
  then obtain s1 where w: "write_text lp c st = (Inr (), s1)" and r: "list_path = lp" "st' = s1"
    by (auto simp: bind_def return_def split: prod.splits sum.splits)
  from w have "s1 = (log (WriteText lp) st)\<lparr>nodes := AList.update lp (File c (clock st)) (nodes st)\<rparr>"
    by (auto simp: write_text_def Let_def split: option.splits node.splits)
  then have "lookup s1 lp = Some (File c (clock st))" by (simp add: fs_simps)
  with r show ?thesis by (simp add: c_def lp_def)
qed

text \<open>
  Claim C10. When \<^verbatim>\<open>make_image_list_file\<close> returns, \<^verbatim>\<open>images.txt\<close> in the output
  directory holds the list \<^verbatim>\<open>rels\<close> joined by newlines. The list is sorted; it holds,
  each as often as \<^verbatim>\<open>rglob\<close> yields it, the paths relative to the images directory of the
  entries below that directory whose lower-cased suffix is in the allow-list; the text does
  not end in a newline; and two states with the same such entries give the same list.
\<close>

theorem image_list_sorted_exact:
  "(\<forall>list_path st'. make_image_list_file images_dir out_dir st = (Inr list_path, st') \<longrightarrow>
      list_path = out_dir @ [''images.txt''] \<and>
      lookup st' list_path =
        Some (File (join newline (image_rels st images_dir)) (clock st))) \<and>
   sorted (image_rels st images_dir) \<and>
   mset (image_rels st images_dir) =
     image_mset (\<lambda>p. str_rel (relative_to p images_dir))
       (mset (filter is_image (rglob st images_dir Star))) \<and>
   (\<forall>q. q \<in> set (filter is_image (rglob st images_dir Star)) \<longleftrightarrow>
      is_dir st images_dir \<and> q \<in> fst ` set (nodes st) \<and> strict_prefix images_dir q \<and>
      lower (suffix_of (name q)) \<in> set IMG_EXTS) \<and>
   (image_rels st images_dir \<noteq> [] \<longrightarrow>
      join newline (image_rels st images_dir) \<noteq> [] \<and>
      last (join newline (image_rels st images_dir)) \<noteq> CHR 0x0A) \<and>
   (\<forall>st2. mset (filter is_image (rglob st2 images_dir Star)) =
           mset (filter is_image (rglob st images_dir Star)) \<longrightarrow>
      image_rels st2 images_dir = image_rels st images_dir)"
proof (intro conjI allI impI)
  fix list_path st'
  assume "make_image_list_file images_dir out_dir st = (Inr list_path, st')"
  from make_image_list_file_written[OF this]
  show "list_path = out_dir @ [''images.txt'']"
    and "lookup st' list_path = Some (File (join newline (image_rels st images_dir)) (clock st))"
    by auto
next
  show "sorted (image_rels st images_dir)" by (simp add: image_rels_def)
next
  show "mset (image_rels st images_dir) =
     image_mset (\<lambda>p. str_rel (relative_to p images_dir))
       (mset (filter is_image (rglob st images_dir Star)))"
    by (simp add: image_rels_def)
next
  fix q
  show "q \<in> set (filter is_image (rglob st images_dir Star)) \<longleftrightarrow>
      is_dir st images_dir \<and> q \<in> fst ` set (nodes st) \<and> strict_prefix images_dir q \<and>
      lower (suffix_of (name q)) \<in> set IMG_EXTS"
    by (auto simp: rglob_iff is_image_def)
next
  assume ne: "image_rels st images_dir \<noteq> []"
  then have "last (image_rels st images_dir) \<in> set (image_rels st images_dir)" by simp
  from image_rels_last[OF this] join_last[OF ne, of newline]
  show "join newline (image_rels st images_dir) \<noteq> []"
    and "last (join newline (image_rels st images_dir)) \<noteq> CHR 0x0A"
    by auto
next
  fix st2
  assume "mset (filter is_image (rglob st2 images_dir Star)) =
           mset (filter is_image (rglob st images_dir Star))"
  then have "mset (map (\<lambda>p. str_rel (relative_to p images_dir)) (filter is_image (rglob st2 images_dir Star)))
      = mset (map (\<lambda>p. str_rel (relative_to p images_dir)) (filter is_image (rglob st images_dir Star)))"
    by (metis mset_map)
  then show "image_rels st2 images_dir = image_rels st images_dir"
    unfolding image_rels_def by (intro properties_for_sort) simp_all
qed

lemma images_example_images:
  "filter is_image (rglob images_example [''p'', ''images''] Star) =
     [[''p'', ''images'', ''sub'', ''a.png''], [''p'', ''images'', ''b.JPG'']]"
proof -
  have r: "rglob images_example [''p'', ''images''] Star =
      [[''p'', ''images'', ''sub''], [''p'', ''images'', ''sub'', ''a.png''],
       [''p'', ''images'', ''notes.txt''], [''p'', ''images'', ''b.JPG'']]"
    by (simp add: rglob_def images_example_def eval_fs)
  have l: "lower ''.png'' = ''.png''" "lower ''.JPG'' = ''.jpg''" "lower ''.txt'' = ''.txt''"
    "lower [] = []"
    by code_simp+
  show ?thesis
    by (simp add: r is_image_def name_def suffix_of_def l IMG_EXTS_def)
qed

theorem image_list_sorted_exact_witness:
  "image_rels images_example [''p'', ''images''] = [''b.JPG'', ''sub/a.png''] \<and>
   (\<exists>st'. make_image_list_file [''p'', ''images''] [''w''] images_example =
            (Inr [''w'', ''images.txt''], st') \<and>
          lookup st' [''w'', ''images.txt''] =
            Some (File (''b.JPG'' @ newline @ ''sub/a.png'') 10)) \<and>
   last (join newline (image_rels images_example [''p'', ''images''])) \<noteq> CHR 0x0A \<and>
   image_rels \<lparr>nodes = rev (nodes images_example), clock = 3, trace = []\<rparr> [''p'', ''images''] =
     [''b.JPG'', ''sub/a.png'']"
proof -
  note T = image_list_sorted_exact[of "[''p'', ''images'']" "[''w'']" images_example]
  have s: "sort [''sub/a.png'', ''b.JPG''] = [''b.JPG'', ''sub/a.png'']" by code_simp
  have rels: "image_rels images_example [''p'', ''images''] = [''b.JPG'', ''sub/a.png'']"
    by (simp add: image_rels_def images_example_images relative_to_def str_rel_def s)
  have "fst (make_image_list_file [''p'', ''images''] [''w''] images_example) =
      Inr [''w'', ''images.txt'']"
    by (simp add: make_image_list_file_def Let_def bind_def write_text_def return_def log_def
        lookup_def parent_def images_example_def)
  then have run: "make_image_list_file [''p'', ''images''] [''w''] images_example =
      (Inr [''w'', ''images.txt''],
       snd (make_image_list_file [''p'', ''images''] [''w''] images_example))"
    by (simp add: prod_eq_iff)
  with T have "lookup (snd (make_image_list_file [''p'', ''images''] [''w''] images_example))
      [''w'', ''images.txt''] =
      Some (File (join newline (image_rels images_example [''p'', ''images''])) (clock images_example))"
    by blast
  have ck: "clock images_example = 10" by (simp add: images_example_def)
  from this and \<open>lookup (snd (make_image_list_file [''p'', ''images''] [''w''] images_example))
      [''w'', ''images.txt''] =
      Some (File (join newline (image_rels images_example [''p'', ''images''])) (clock images_example))\<close>
  have w: "lookup (snd (make_image_list_file [''p'', ''images''] [''w''] images_example))
      [''w'', ''images.txt''] = Some (File (''b.JPG'' @ newline @ ''sub/a.png'') 10)"
    by (simp add: rels ck)
  from T rels have nl: "last (join newline (image_rels images_example [''p'', ''images''])) \<noteq> CHR 0x0A"
    by simp
  have r2: "rglob \<lparr>nodes = rev (nodes images_example), clock = 3, trace = []\<rparr> [''p'', ''images''] Star =
      [[''p'', ''images'', ''b.JPG''], [''p'', ''images'', ''notes.txt''],
       [''p'', ''images'', ''sub'', ''a.png''], [''p'', ''images'', ''sub'']]"
    by (simp add: rglob_def images_example_def eval_fs)
  have l: "lower ''.png'' = ''.png''" "lower ''.JPG'' = ''.jpg''" "lower ''.txt'' = ''.txt''"
    "lower [] = []"
    by code_simp+
  have f2: "filter is_image
      (rglob \<lparr>nodes = rev (nodes images_example), clock = 3, trace = []\<rparr> [''p'', ''images''] Star) =
      [[''p'', ''images'', ''b.JPG''], [''p'', ''images'', ''sub'', ''a.png'']]"
    by (simp add: r2 is_image_def name_def suffix_of_def l IMG_EXTS_def)
  have "mset (filter is_image
      (rglob \<lparr>nodes = rev (nodes images_example), clock = 3, trace = []\<rparr> [''p'', ''images''] Star)) =
      mset (filter is_image (rglob images_example [''p'', ''images''] Star))"
    by (simp add: f2 images_example_images)
  with T rels have one: "image_rels \<lparr>nodes = rev (nodes images_example), clock = 3, trace = []\<rparr>
      [''p'', ''images''] = [''b.JPG'', ''sub/a.png'']"
    by metis
  from rels run w nl one show ?thesis by blast
qed

section \<open>Validation comes first\<close>

lemma growsD: "grows m \<Longrightarrow> length (trace st) \<le> length (trace (snd (m st)))"
  by (simp add: grows_def)

lemma grows_return: "grows (return a)"
  by (simp add: grows_def return_def)

lemma grows_raise: "grows (raise e)"
  by (simp add: grows_def raise_def)

lemma grows_bind:
  assumes "grows m" and "\<And>a. grows (f a)"
  shows "grows (bind m f)"
  unfolding grows_def
proof
  fix st
  obtain r s where ms: "m st = (r, s)" by (cases "m st")
  from growsD[OF assms(1), of st] ms have 1: "length (trace st) \<le> length (trace s)" by simp
  show "length (trace st) \<le> length (trace (snd (bind m f st)))"
  proof (cases r)
    case (Inl e)
    with ms 1 show ?thesis by (simp add: bind_def)
  next
    case (Inr a)
    with ms 1 growsD[OF assms(2), of s a] show ?thesis by (simp add: bind_def)
  qed
qed

lemma grows_except_TypeError:
  assumes "grows m" and "grows h"
  shows "grows (except_TypeError m h)"
  unfolding grows_def
proof
  fix st
  obtain r s where ms: "m st = (r, s)" by (cases "m st")
  from growsD[OF assms(1), of st] ms have 1: "length (trace st) \<le> length (trace s)" by simp
  with ms growsD[OF assms(2), of s]
  show "length (trace st) \<le> length (trace (snd (except_TypeError m h st)))"
    by (auto simp: except_TypeError_def split: sum.splits error.splits)
qed

lemma grows_except_Exception:
  assumes "grows m" and "grows h"
  shows "grows (except_Exception m h)"
  unfolding grows_def
proof
  fix st
  obtain r s where ms: "m st = (r, s)" by (cases "m st")
  from growsD[OF assms(1), of st] ms have 1: "length (trace st) \<le> length (trace s)" by simp
  with ms growsD[OF assms(2), of s]
  show "length (trace st) \<le> length (trace (snd (except_Exception m h st)))"
    by (auto simp: except_Exception_def split: sum.splits)
qed

lemma grows_if: "grows m \<Longrightarrow> grows n \<Longrightarrow> grows (if c then m else n)"
  by simp

lemma grows_on_state: "(\<And>s. grows (F s)) \<Longrightarrow> grows (\<lambda>st. F st st)"
  by (simp add: grows_def)

lemma grows_mkdir_parents: "grows (mkdir_parents p)"
  by (simp add: grows_def mkdir_parents_def Let_def log_def split: sum.splits)

lemma grows_unlink: "grows (unlink p)"
  by (simp add: grows_def unlink_def Let_def log_def split: option.splits node.splits)

lemma grows_write_text: "grows (write_text p s)"
  by (simp add: grows_def write_text_def Let_def log_def split: option.splits node.splits)

lemma grows_rmtree: "grows (rmtree p)"
  by (simp add: grows_def rmtree_def Let_def log_def split: option.splits node.splits)

lemma grows_shutil_move: "grows (shutil_move src dst)"
  by (simp add: grows_def shutil_move_def Let_def log_def split: option.splits node.splits)

lemma grows_invoke: "grows (invoke nm f c)"
  by (simp add: grows_def invoke_def split: prod.splits)

lemma grows_for_each: "(\<And>x. grows (f x)) \<Longrightarrow> grows (for_each xs f)"
  unfolding grows_def
proof (induction xs)
  case Nil
  show ?case by simp
next
  case (Cons x xs)
  show ?case
  proof
    fix st
    obtain r s where fx: "f x st = (r, s)" by (cases "f x st")
    from Cons.prems[of x] fx have 1: "length (trace st) \<le> length (trace s)"
      by (metis snd_conv)
    from Cons.IH[OF Cons.prems] have "length (trace s) \<le> length (trace (snd (for_each xs f s)))"
      by simp
    with 1 fx show "length (trace st) \<le> length (trace (snd (for_each (x # xs) f st)))"
      by (cases r) auto
  qed
qed

lemmas grows_intros = grows_return grows_raise grows_bind grows_except_TypeError
  grows_except_Exception grows_if grows_mkdir_parents grows_unlink grows_write_text
  grows_rmtree grows_shutil_move grows_invoke grows_for_each

lemma grows_same_size_unlink: "grows (same_size_unlink src dst)"
proof -
  have u: "length (trace st) \<le> length (trace (snd (bind (unlink src) (\<lambda>_. return True) st)))" for st
    by (rule growsD) (intro grows_intros)
  show ?thesis
    unfolding grows_def same_size_unlink_def by (auto split: option.splits simp: u)
qed

lemma grows_move_file: "grows (move_file src dst)"
proof -
  have a: "grows (bind (except_Exception (same_size_unlink src dst) (return False)) (\<lambda>done.
              if done then return ()
              else bind (unlink dst) (\<lambda>_. shutil_move src dst)))"
    by (intro grows_intros grows_same_size_unlink)
  have "grows (\<lambda>st. if exists st dst
       then bind (except_Exception (same_size_unlink src dst) (return False)) (\<lambda>done.
              if done then return ()
              else bind (unlink dst) (\<lambda>_. shutil_move src dst)) st
       else shutil_move src dst st)"
    using growsD[OF a] growsD[OF grows_shutil_move] by (simp add: grows_def)
  then show ?thesis
    unfolding move_file_def by (intro grows_intros)
qed

lemma grows_dedup_sparse_zero: "grows (dedup_sparse_zero sparse0)"
proof -
  have "grows (dedup_body hb t)" for hb t
    unfolding dedup_body_def by (intro grows_intros)
  then have "grows (for_each ts (dedup_body hb))" for ts hb
    by (intro grows_intros)
  from growsD[OF this] show ?thesis
    by (simp add: grows_def dedup_sparse_zero_def Let_def return_def)
qed

lemma grows_move_newest_database: "grows (move_newest_database out work)"
  using growsD[OF grows_move_file]
  by (simp add: grows_def move_newest_database_def Let_def return_def)

lemma grows_move_sparse_model: "grows (move_sparse_model out work)"
proof -
  have body: "grows (\<lambda>st. if is_dir st p then return () st else move_file p (d @ [name p]) st)"
    for p d
    using growsD[OF grows_move_file] by (simp add: grows_def return_def)
  have loop: "grows (bind
        (for_each ps (\<lambda>p st. if is_dir st p then return () st else move_file p (d @ [name p]) st))
        (\<lambda>_. dedup_sparse_zero d))" for ps d
    by (intro grows_intros body grows_dedup_sparse_zero)
  have mk: "grows (\<lambda>st. if \<not> exists st d then mkdir_parents d st else return () st)" for d
    using growsD[OF grows_mkdir_parents] by (simp add: grows_def return_def)
  have rest: "grows (\<lambda>st. bind
        (for_each (rglob st src Star)
           (\<lambda>p st. if is_dir st p then return () st else move_file p (d @ [name p]) st))
        (\<lambda>_. dedup_sparse_zero d) st)" for src d
    using growsD[OF loop] by (simp add: grows_def)
  have "grows (bind (\<lambda>st. if \<not> exists st d then mkdir_parents d st else return () st)
      (\<lambda>_ st. bind
        (for_each (rglob st src Star)
           (\<lambda>p st. if is_dir st p then return () st else move_file p (d @ [name p]) st))
        (\<lambda>_. dedup_sparse_zero d) st))" for src d
    by (intro grows_bind mk rest)
  from growsD[OF this] show ?thesis
    by (simp add: grows_def move_sparse_model_def Let_def return_def split: option.splits)
qed

lemma grows_finalize: "grows (finalize_to_colmap_layout out work)"
  unfolding finalize_to_colmap_layout_def
  by (intro grows_intros grows_move_newest_database grows_move_sparse_model)

lemma grows_make_image_list_file: "grows (make_image_list_file images_dir out_dir)"
proof -
  have "grows (bind (write_text p c) (\<lambda>_. return p))" for p c
    by (intro grows_intros)
  from growsD[OF this] show ?thesis
    by (simp add: grows_def make_image_list_file_def Let_def)
qed

lemma grows_call_pairs_exhaustive:
  "grows (call_pairs_exhaustive h images_dir output_pairs image_list_path)"
  unfolding call_pairs_exhaustive_def Let_def
  by (intro grows_intros)

lemma grows_call_reconstruction:
  "grows (call_reconstruction h sfm_dir images_dir pairs_path feature_path match_path)"
  unfolding call_reconstruction_def Let_def
  by (intro grows_intros)

lemma grows_try_match_features:
  "grows (try_match_features h cf pairs_path features_name export_dir)"
  unfolding try_match_features_def Let_def
  by (intro grows_intros)

lemma grows_find_matches_file: "grows (find_matches_file export_dir b t0)"
  by (simp add: grows_def find_matches_file_def Let_def return_def raise_def)

lemma grows_call_match_features:
  "grows (call_match_features h pairs_path features_name export_dir)"
proof -
  have "grows (bind (try_match_features h cf pairs_path features_name export_dir)
           (\<lambda>_. case j of
                   JStr s \<Rightarrow>
                     bind (find_matches_file export_dir s t0) (\<lambda>match_path.
                       return (match_path, cf))
                 | _ \<Rightarrow> raise TypeError))" for cf j t0
    by (cases j) (auto intro!: grows_intros grows_try_match_features grows_find_matches_file)
  from growsD[OF this] show ?thesis
    by (simp add: grows_def call_match_features_def Let_def)
qed

lemma grows_call_extract_features:
  "grows (call_extract_features h images_dir export_dir max_keypoints)"
proof -
  have w: "grows (\<lambda>st. if \<not> exists st p then write_text p [] st else return () st)" for p
    using growsD[OF grows_write_text] by (simp add: grows_def return_def)
  have pick: "grows (\<lambda>st.
              let candidates = sort_key (mtime_of st) (glob st export_dir (PreStarExt ''feats-'' ''.h5''))
              in if candidates \<noteq> []
                 then return (last candidates, stem_of (name (last candidates)), cf) st
                 else
                   (case j of
                      JStr s \<Rightarrow>
                        return (export_dir @ [s @ ''.h5''], stem_of (s @ ''.h5''), cf) st
                    | _ \<Rightarrow> raise TypeError st))" for cf j
    by (cases j) (simp_all add: grows_def Let_def return_def raise_def)
  show ?thesis
    unfolding call_extract_features_def Let_def
    by (intro grows_intros w pick[unfolded Let_def])
qed

lemma grows_after_validation:
  "grows (bind (write_text mf js) (\<lambda>_.
       bind (\<lambda>st. if exists st sfm_dir then rmtree sfm_dir st else return () st) (\<lambda>_.
       bind (mkdir_parents sfm_dir) (\<lambda>_.
       bind (make_image_list_file images work_dir) (\<lambda>image_list_path.
       bind (call_pairs_exhaustive h images pairs_path image_list_path) (\<lambda>_.
       bind (call_extract_features h images work_dir max_keypoints) (\<lambda>(feature_path, features_name, _).
       bind (call_match_features h pairs_path features_name work_dir) (\<lambda>(match_path, _).
       bind (call_reconstruction h sfm_dir images pairs_path feature_path match_path) (\<lambda>_.
       finalize_to_colmap_layout out_root work_dir)))))))))"
proof -
  have rm: "grows (\<lambda>st. if exists st sfm_dir then rmtree sfm_dir st else return () st)"
    using growsD[OF grows_rmtree] by (simp add: grows_def return_def)
  show ?thesis
    by (intro grows_intros rm grows_make_image_list_file grows_call_pairs_exhaustive
        grows_call_extract_features grows_call_match_features grows_call_reconstruction
        grows_finalize)
      (auto intro!: grows_intros grows_call_match_features grows_call_reconstruction
        grows_finalize)
qed

lemma mkdir_first_strict:
  assumes "\<And>a. grows (f a)"
  shows "length (trace st) < length (trace (snd (bind (mkdir_parents p) f st)))"
proof -
  obtain r s1 where m: "mkdir_parents p st = (r, s1)" by (cases "mkdir_parents p st")
  then have 1: "length (trace s1) = Suc (length (trace st))"
    by (auto simp: mkdir_parents_def Let_def log_def split: sum.splits)
  show ?thesis
  proof (cases r)
    case (Inl e)
    with m 1 show ?thesis by (simp add: bind_def)
  next
    case (Inr a)
    with m 1 growsD[OF assms, of s1 a] show ?thesis by (simp add: bind_def)
  qed
qed

lemma ensure_images_dir_cases:
  "ensure_images_dir project_dir st =
     (if is_dir st (project_dir @ [''images'']) \<and>
         (\<exists>q. q \<in> fst ` set (nodes st) \<and> strict_prefix (project_dir @ [''images'']) q \<and>
              lower (suffix_of (name q)) \<in> set IMG_EXTS)
      then (Inr (project_dir @ [''images'']), st)
      else (Inl FileNotFoundError, st))"
proof -
  have "filter is_image (rglob st (project_dir @ [''images'']) Star) \<noteq> [] \<longleftrightarrow>
      (\<exists>q. q \<in> set (rglob st (project_dir @ [''images'']) Star) \<and> is_image q)"
    by (auto simp: filter_empty_conv)
  also have "\<dots> \<longleftrightarrow> is_dir st (project_dir @ [''images'']) \<and>
         (\<exists>q. q \<in> fst ` set (nodes st) \<and> strict_prefix (project_dir @ [''images'']) q \<and>
              lower (suffix_of (name q)) \<in> set IMG_EXTS)"
    by (auto simp: rglob_iff is_image_def)
  finally have v: "filter is_image (rglob st (project_dir @ [''images'']) Star) = [] \<longleftrightarrow>
      \<not> (is_dir st (project_dir @ [''images'']) \<and>
         (\<exists>q. q \<in> fst ` set (nodes st) \<and> strict_prefix (project_dir @ [''images'']) q \<and>
              lower (suffix_of (name q)) \<in> set IMG_EXTS))"
    by blast
  have d: "is_dir st p \<Longrightarrow> exists st p" for p
    by (auto simp: is_dir_def exists_def split: option.splits)
  show ?thesis
    unfolding ensure_images_dir_def Let_def v using d[of "project_dir @ [''images'']"]
    by (auto simp: raise_def return_def)
qed

text \<open>
  Claim C9. The run of a project raises with nothing recorded in the trace, that is, before
  any call that changes the file system (the work area and the manifest among them) and
  before any call of a stage function, if and only if \<^verbatim>\<open>images\<close> is not a directory of the
  project or no entry below it has a lower-cased suffix in the allow-list. In that case the
  exception is \<^verbatim>\<open>FileNotFoundError\<close> and the state is untouched.
\<close>

theorem run_fails_fast_iff:
  "((\<exists>e st'. run_sfm_for_project h project_dir output_root max_keypoints st = (Inl e, st') \<and>
             trace st' = trace st) \<longleftrightarrow>
      \<not> is_dir st (project_dir @ [''images'']) \<or>
      \<not> (\<exists>q. q \<in> fst ` set (nodes st) \<and> strict_prefix (project_dir @ [''images'']) q \<and>
              lower (suffix_of (name q)) \<in> set IMG_EXTS)) \<and>
   (\<not> is_dir st (project_dir @ [''images'']) \<or>
      \<not> (\<exists>q. q \<in> fst ` set (nodes st) \<and> strict_prefix (project_dir @ [''images'']) q \<and>
              lower (suffix_of (name q)) \<in> set IMG_EXTS) \<longrightarrow>
    run_sfm_for_project h project_dir output_root max_keypoints st = (Inl FileNotFoundError, st))"
proof -
  define valid where "valid \<longleftrightarrow> is_dir st (project_dir @ [''images'']) \<and>
         (\<exists>q. q \<in> fst ` set (nodes st) \<and> strict_prefix (project_dir @ [''images'']) q \<and>
              lower (suffix_of (name q)) \<in> set IMG_EXTS)"
  have bad: "run_sfm_for_project h project_dir output_root max_keypoints st =
      (Inl FileNotFoundError, st)" if "\<not> valid"
  proof -
    from that have "ensure_images_dir project_dir st = (Inl FileNotFoundError, st)"
      unfolding valid_def ensure_images_dir_cases by simp
    then show ?thesis by (simp add: run_sfm_for_project_def bind_def)
  qed
  have good: "length (trace st) <
      length (trace (snd (run_sfm_for_project h project_dir output_root max_keypoints st)))"
    if valid
  proof -
    from that have e: "ensure_images_dir project_dir st = (Inr (project_dir @ [''images'']), st)"
      unfolding valid_def by (simp add: ensure_images_dir_cases)
    show ?thesis
      unfolding run_sfm_for_project_def Let_def
      by (subst bind_def, simp only: e prod.case sum.case)
         (rule mkdir_first_strict, rule grows_after_validation)
  qed
  have "(\<exists>e st'. run_sfm_for_project h project_dir output_root max_keypoints st = (Inl e, st') \<and>
             trace st' = trace st) \<longleftrightarrow> \<not> valid"
  proof
    assume "\<exists>e st'. run_sfm_for_project h project_dir output_root max_keypoints st = (Inl e, st') \<and>
             trace st' = trace st"
    then obtain e st' where "run_sfm_for_project h project_dir output_root max_keypoints st = (Inl e, st')"
      "trace st' = trace st" by blast
    then have "\<not> length (trace st) <
      length (trace (snd (run_sfm_for_project h project_dir output_root max_keypoints st)))"
      by simp
    with good show "\<not> valid" by blast
  next
    assume "\<not> valid"
    from bad[OF this] show "\<exists>e st'. run_sfm_for_project h project_dir output_root max_keypoints st = (Inl e, st') \<and>
             trace st' = trace st" by blast
  qed
  with bad show ?thesis unfolding valid_def by blast
qed

text \<open>
  In \<^term>\<open>two_projects\<close> the first project has no \<^verbatim>\<open>images\<close> directory and its run
  raises at once; the second project holds \<^verbatim>\<open>a.jpg\<close> and its run does not end with an
  unchanged trace.
\<close>

theorem run_fails_fast_iff_witness:
  "run_sfm_for_project idle_env [''p1''] None 4096 two_projects =
     (Inl FileNotFoundError, two_projects) \<and>
   \<not> (\<exists>e st'. run_sfm_for_project idle_env [''p2''] None 4096 two_projects = (Inl e, st') \<and>
              trace st' = trace two_projects)"
proof -
  have n1: "\<not> is_dir two_projects ([''p1''] @ [''images''])"
    by (simp add: two_projects_def eval_fs)
  have d2: "is_dir two_projects ([''p2''] @ [''images''])"
    by (simp add: two_projects_def eval_fs)
  have "[''p2'', ''images'', ''a.jpg''] \<in> fst ` set (nodes two_projects) \<and>
      strict_prefix ([''p2''] @ [''images'']) [''p2'', ''images'', ''a.jpg''] \<and>
      lower (suffix_of (name [''p2'', ''images'', ''a.jpg''])) \<in> set IMG_EXTS"
    by (simp add: two_projects_def name_def suffix_of_def lower_jpg IMG_EXTS_def)
  then have q2: "\<exists>q. q \<in> fst ` set (nodes two_projects) \<and>
      strict_prefix ([''p2''] @ [''images'']) q \<and>
      lower (suffix_of (name q)) \<in> set IMG_EXTS"
    by blast
  from run_fails_fast_iff[of idle_env "[''p1'']" None 4096 two_projects] n1
  have "run_sfm_for_project idle_env [''p1''] None 4096 two_projects =
     (Inl FileNotFoundError, two_projects)"
    by blast
  moreover from run_fails_fast_iff[of idle_env "[''p2'']" None 4096 two_projects] d2 q2
  have "\<not> (\<exists>e st'. run_sfm_for_project idle_env [''p2''] None 4096 two_projects = (Inl e, st') \<and>
              trace st' = trace two_projects)"
    by blast
  ultimately show ?thesis by blast
qed

end
